theory Spec2Isabelle
  imports
    Complex_Main
    "HOL-Library.List_Lexorder"
    "HOL-Library.Char_ord"
    "HOL-Library.Sublist"
    "HOL-Library.Log_Nat"
begin

section \<open>JavaScript values and built-ins used by the training route\<close>

text \<open>
  The development embeds the handler \<^verbatim>\<open>router.post('/start', ...)\<close> of
  \<^verbatim>\<open>src/api/routes/training.ts\<close> and the two helpers above it.

  Strings are \<^typ>\<open>string\<close>, compared and ordered character by character. Array
  lengths and indices are \<^typ>\<open>nat\<close>.
  JavaScript numbers that carry geometry or configuration are binary64 values, with the
  rounding of every operation written out (section Number values).
\<close>

text \<open>
  \<^verbatim>\<open>String.prototype.toLowerCase\<close> is the engine's Unicode case mapping. The model does
  not fix that mapping: every function that lower-cases takes it as its first argument
  \<open>lc\<close>, and every statement below holds for every mapping. The empty string has no
  character to map.
\<close>

definition toLowerCase :: "(string \<Rightarrow> string) \<Rightarrow> string \<Rightarrow> string" where
  "toLowerCase lc s = (if s = [] then [] else lc s)"

text \<open>The case mapping of the ASCII letters, used in the concrete inputs.\<close>

definition toLowerChar :: "char \<Rightarrow> char" where
  "toLowerChar c =
     (case map_of (zip ''ABCDEFGHIJKLMNOPQRSTUVWXYZ'' ''abcdefghijklmnopqrstuvwxyz'') c of
        Some l \<Rightarrow> l
      | None \<Rightarrow> c)"

definition asciiLower :: "string \<Rightarrow> string" where
  "asciiLower s = map toLowerChar s"

definition endsWith :: "string \<Rightarrow> string \<Rightarrow> bool" where
  "endsWith s ext = suffix ext s"

definition digitChar :: "nat \<Rightarrow> char" where
  "digitChar d = ''0123456789'' ! (d mod 10)"

text \<open>\<^verbatim>\<open>String(n)\<close> for a non-negative integer below \<open>10^21\<close>.\<close>

fun decimal :: "nat \<Rightarrow> string" where
  "decimal n = (if n < 10 then [digitChar n] else decimal (n div 10) @ [digitChar (n mod 10)])"

declare decimal.simps [simp del]

text \<open>
  \<^verbatim>\<open>Array.prototype.join\<close> on strings.
\<close>

fun join :: "string \<Rightarrow> string list \<Rightarrow> string" where
  "join sep [] = []"
| "join sep [s] = s"
| "join sep (s # t # ts) = s @ sep @ join sep (t # ts)"

text \<open>
  \<^verbatim>\<open>Array.prototype.slice(start, end)\<close> for non-negative arguments: empty when
  \<open>end \<le> start\<close>, clipped at the end of the array.
\<close>

definition slice :: "'a list \<Rightarrow> nat \<Rightarrow> nat \<Rightarrow> 'a list" where
  "slice xs startIdx endIdx = take (endIdx - startIdx) (drop startIdx xs)"

section \<open>Annotation records\<close>

text \<open>
  A row of the \<^verbatim>\<open>annotations\<close> table. The JSON column \<^verbatim>\<open>data\<close> is read by the handler
  as \<^verbatim>\<open>{x, y, width, height, label}\<close>: four numbers, given here by the decimals the column
  writes, and a string. Rows whose \<^verbatim>\<open>data\<close> has another shape are outside the model.
\<close>

record box_data =
  box_x :: rat
  box_y :: rat
  box_width :: rat
  box_height :: rat
  box_label :: string

record annotation =
  ann_id :: string
  ann_classId :: string
  imageId :: string
  ann_datasetId :: string
  ann_data :: box_data

section \<open>Grouping annotations by imageId\<close>

text \<open>
  \<^verbatim>\<open>annotationsByImage\<close> is a plain object created as \<^verbatim>\<open>{}\<close>, so it inherits the members
  of \<^verbatim>\<open>Object.prototype\<close>. For an \<^verbatim>\<open>imageId\<close> that names one of them, \<^verbatim>\<open>acc[ann.imageId]\<close>
  is that (truthy) member, the array is not created, and \<^verbatim>\<open>.push\<close> is not a function: the
  reducer throws a TypeError, which the handler's outer \<^verbatim>\<open>catch\<close> answers.
\<close>

definition objectPrototypeKeys :: "string list" where
  "objectPrototypeKeys =
     [''constructor'', ''__proto__'', ''toString'', ''toLocaleString'', ''valueOf'',
      ''hasOwnProperty'', ''isPrototypeOf'', ''propertyIsEnumerable'',
      ''__defineGetter__'', ''__defineSetter__'', ''__lookupGetter__'', ''__lookupSetter__'']"

type_synonym 'a js_object = "(string \<times> 'a) list"

text \<open>Own properties in creation order; \<open>None\<close> is the thrown TypeError.\<close>

definition groupStep ::
  "annotation list js_object \<Rightarrow> annotation \<Rightarrow> annotation list js_object option" where
  "groupStep acc ann =
     (if imageId ann \<in> set objectPrototypeKeys then None
      else (case map_of acc (imageId ann) of
              None \<Rightarrow> Some (acc @ [(imageId ann, [ann])])
            | Some anns \<Rightarrow> Some (map (\<lambda>(k, v). if k = imageId ann then (k, v @ [ann]) else (k, v)) acc)))"

fun reduceGroup ::
  "annotation list js_object \<Rightarrow> annotation list \<Rightarrow> annotation list js_object option" where
  "reduceGroup acc [] = Some acc"
| "reduceGroup acc (ann # anns) =
     (case groupStep acc ann of
        None \<Rightarrow> None
      | Some acc' \<Rightarrow> reduceGroup acc' anns)"

definition annotationsByImage :: "annotation list \<Rightarrow> annotation list js_object option" where
  "annotationsByImage annotations = reduceGroup [] annotations"

text \<open>
  \<^verbatim>\<open>Object.keys\<close>: the keys that are array indices (canonical decimal numerals below
  \<open>2^32 - 1\<close>) come first in ascending numeric order, then the other keys in creation order.
\<close>

definition isDigit :: "char \<Rightarrow> bool" where
  "isDigit c = (c \<in> set ''0123456789'')"

definition digitValue :: "char \<Rightarrow> nat" where
  "digitValue c = (case map_of (zip ''0123456789'' [0 ..< 10]) c of Some d \<Rightarrow> d | None \<Rightarrow> 0)"

definition decimalValue :: "string \<Rightarrow> nat" where
  "decimalValue s = foldl (\<lambda>acc c. 10 * acc + digitValue c) 0 s"

definition isArrayIndex :: "string \<Rightarrow> bool" where
  "isArrayIndex s =
     (s \<noteq> [] \<and> list_all isDigit s \<and> (s = ''0'' \<or> hd s \<noteq> CHR ''0'') \<and>
      decimalValue s < 2 ^ 32 - 1)"

definition objectKeys :: "'a js_object \<Rightarrow> string list" where
  "objectKeys obj =
     sort_key decimalValue (filter isArrayIndex (map fst obj)) @
     filter (\<lambda>k. \<not> isArrayIndex k) (map fst obj)"

section \<open>Choice of the reconciliation path\<close>

definition shouldExpandImageSelection :: "string list \<Rightarrow> string list \<Rightarrow> bool" where
  "shouldExpandImageSelection uniqueImageIds files =
     (let uniqueImageIdsCount = length uniqueImageIds
      in uniqueImageIdsCount < 3 \<and> length files \<ge> uniqueImageIdsCount * 2)"

section \<open>Reconciliation of annotations with image files\<close>

definition imageExtensions :: "string list" where
  "imageExtensions = [''.jpg'', ''.jpeg'', ''.png'', ''.bmp'', ''.webp'']"

definition isImageFile :: "(string \<Rightarrow> string) \<Rightarrow> string \<Rightarrow> bool" where
  "isImageFile lc file = list_ex (\<lambda>ext. endsWith (toLowerCase lc file) ext) imageExtensions"

text \<open>The predicate handed to \<^verbatim>\<open>imageFiles.find\<close>.\<close>

definition matchesImageFile :: "(string \<Rightarrow> string) \<Rightarrow> string \<Rightarrow> string \<Rightarrow> bool" where
  "matchesImageFile lc imgId imageFile =
     (let imageNameLower = toLowerCase lc imageFile;
          imageIdLower = toLowerCase lc imgId
      in imgId = imageFile \<or> imageIdLower = imageNameLower)"

definition matchingImageFile :: "(string \<Rightarrow> string) \<Rightarrow> string list \<Rightarrow> string \<Rightarrow> string option" where
  "matchingImageFile lc files imgId = List.find (matchesImageFile lc imgId) files"

text \<open>
  The state the two paths build: the \<^verbatim>\<open>Map\<close> from file name to annotations, the array
  \<^verbatim>\<open>annotatedImageFiles\<close>, and the array \<^verbatim>\<open>imageFiles\<close> itself, which the fallback path
  sorts in place.
\<close>

record reconciliation =
  imageAnnotationMap :: "string \<rightharpoonup> annotation list"
  annotatedImageFiles :: "string list"
  imageFiles :: "string list"

definition initialReconciliation :: "string list \<Rightarrow> reconciliation" where
  "initialReconciliation files =
     \<lparr>imageAnnotationMap = Map.empty, annotatedImageFiles = [], imageFiles = files\<rparr>"

text \<open>
  One iteration of the loop of the normal path. \<^verbatim>\<open>if (matchingImageFile)\<close> tests
  truthiness: no match and the empty string both take the \<^verbatim>\<open>else\<close> branch, which only logs.
\<close>

definition normalStep :: "(string \<Rightarrow> string) \<Rightarrow> reconciliation \<Rightarrow> annotation \<Rightarrow> reconciliation" where
  "normalStep lc st ann =
     (case matchingImageFile lc (imageFiles st) (imageId ann) of
        None \<Rightarrow> st
      | Some file \<Rightarrow>
          if file = [] then st
          else (case imageAnnotationMap st file of
                  None \<Rightarrow>
                    st\<lparr>imageAnnotationMap := (imageAnnotationMap st)(file \<mapsto> [ann]),
                       annotatedImageFiles := annotatedImageFiles st @ [file]\<rparr>
                | Some anns \<Rightarrow>
                    st\<lparr>imageAnnotationMap := (imageAnnotationMap st)(file \<mapsto> anns @ [ann])\<rparr>))"

definition normalPath ::
  "(string \<Rightarrow> string) \<Rightarrow> annotation list \<Rightarrow> string list \<Rightarrow> reconciliation" where
  "normalPath lc annotations files = foldl (normalStep lc) (initialReconciliation files) annotations"

text \<open>
  \<^verbatim>\<open>Math.ceil(annotations.length / Math.min(annotations.length, sortedImageFiles.length))\<close>.
  When the minimum is 0 the JavaScript quotient is \<^verbatim>\<open>Infinity\<close> or \<^verbatim>\<open>NaN\<close>; the loop
  below then runs no iteration and the value is never read.
\<close>

definition annotationsPerImage :: "nat \<Rightarrow> nat \<Rightarrow> nat" where
  "annotationsPerImage totalAnnotations numFiles =
     nat \<lceil>(of_nat totalAnnotations :: rat) / of_nat (min totalAnnotations numFiles)\<rceil>"

definition expandStep ::
  "annotation list \<Rightarrow> string list \<Rightarrow> reconciliation \<Rightarrow> nat \<Rightarrow> reconciliation" where
  "expandStep annotations sortedImageFiles st i =
     (let imageFile = sortedImageFiles ! i;
          startIdx = i * annotationsPerImage (length annotations) (length sortedImageFiles);
          endIdx = min (startIdx + annotationsPerImage (length annotations) (length sortedImageFiles))
                       (length annotations);
          imageAnnotations = slice annotations startIdx endIdx
      in if length imageAnnotations > 0
         then st\<lparr>imageAnnotationMap := (imageAnnotationMap st)(imageFile \<mapsto> imageAnnotations),
                 annotatedImageFiles := annotatedImageFiles st @ [imageFile]\<rparr>
         else st)"

definition expandPath :: "annotation list \<Rightarrow> string list \<Rightarrow> reconciliation" where
  "expandPath annotations files =
     (let sortedImageFiles = sort files
      in foldl (expandStep annotations sortedImageFiles)
           (initialReconciliation sortedImageFiles)
           [0 ..< min (length annotations) (length sortedImageFiles)])"

definition reconcile ::
  "(string \<Rightarrow> string) \<Rightarrow> annotation list \<Rightarrow> string list \<Rightarrow> string list \<Rightarrow> reconciliation" where
  "reconcile lc annotations uniqueImageIds files =
     (if \<not> shouldExpandImageSelection uniqueImageIds files
      then normalPath lc annotations files
      else expandPath annotations files)"

section \<open>Number values\<close>

text \<open>
  A JavaScript number is an IEEE 754 binary64 value. A finite one is represented by the
  rational it denotes. The two zeros are identified: the handler adds numbers, divides them by
  a positive constant, tests them for truthiness and prints them, and none of these tells
  \<open>-0\<close> from \<open>0\<close>.
\<close>

datatype jsnum = Finite rat | PosInfinity | NegInfinity | NotANumber

definition pow2 :: "int \<Rightarrow> rat" where
  "pow2 k = (if 0 \<le> k then 2 ^ nat k else 1 / 2 ^ nat (- k))"

definition pow10 :: "int \<Rightarrow> rat" where
  "pow10 k = (if 0 \<le> k then 10 ^ nat k else 1 / 10 ^ nat (- k))"

text \<open>
  \<open>logSteps b fuel a e\<close> divides or multiplies \<open>a\<close> by \<open>b\<close> until it lies in \<open>[1, b)\<close> and
  counts the steps in \<open>e\<close>: started at \<open>e = 0\<close> on a positive \<open>a\<close> it returns the floor of the
  logarithm of \<open>a\<close> to base \<open>b\<close>, as long as the fuel lasts.
\<close>

fun logSteps :: "rat \<Rightarrow> nat \<Rightarrow> rat \<Rightarrow> int \<Rightarrow> int" where
  "logSteps b 0 a e = e"
| "logSteps b (Suc fuel) a e =
     (if b \<le> a then logSteps b fuel (a / b) (e + 1)
      else if a < 1 then logSteps b fuel (a * b) (e - 1)
      else e)"

text \<open>The integer nearest to \<open>t\<close>, the even one of the two when \<open>t\<close> lies half way.\<close>

definition roundHalfEven :: "rat \<Rightarrow> int" where
  "roundHalfEven t =
     (let f = \<lfloor>t\<rfloor>; d = t - of_int f
      in if d < 1 / 2 then f else if 1 / 2 < d then f + 1 else if even f then f else f + 1)"

text \<open>
  Rounding to binary64, to nearest and ties to even: a magnitude whose leading bit has
  exponent \<open>e\<close> is rounded to a multiple of \<open>2^(e - 52)\<close> (53 significant bits), the exponent
  being at least \<open>-1022\<close> (below that the spacing stays \<open>2^-1074\<close>, the subnormal numbers);
  a rounded magnitude of \<open>2^1024\<close> or more is an infinity. With fuel 2200 the exponent is
  exact between \<open>2^-2200\<close> and \<open>2^2200\<close>; outside, the result is zero or an infinity whatever
  the exponent found.
\<close>

definition quantize :: "rat \<Rightarrow> rat \<Rightarrow> rat" where
  "quantize a q = of_int (roundHalfEven (a / q)) * q"

definition withSign :: "rat \<Rightarrow> rat \<Rightarrow> jsnum" where
  "withSign r v =
     (if pow2 1024 \<le> v then (if r < 0 then NegInfinity else PosInfinity)
      else Finite (if r < 0 then - v else v))"

text \<open>
  The number value of a numeric literal, in the program text or in JSON: the binary64 value
  nearest to the decimal it writes.
\<close>

definition round64 :: "rat \<Rightarrow> jsnum" where
  "round64 r =
     (if r = 0 then Finite 0
      else withSign r
             (quantize \<bar>r\<bar> (pow2 (max (logSteps 2 2200 \<bar>r\<bar> 0) (- 1022) - 52))))"

text \<open>
  The operator \<^verbatim>\<open>+\<close> on numbers: the exact sum, rounded. An infinity absorbs every finite
  number, two opposite infinities give \<^verbatim>\<open>NaN\<close>.
\<close>

fun numAdd :: "jsnum \<Rightarrow> jsnum \<Rightarrow> jsnum" where
  "numAdd (Finite r) (Finite s) = round64 (r + s)"
| "numAdd NotANumber b = NotANumber"
| "numAdd a NotANumber = NotANumber"
| "numAdd PosInfinity NegInfinity = NotANumber"
| "numAdd NegInfinity PosInfinity = NotANumber"
| "numAdd PosInfinity b = PosInfinity"
| "numAdd a PosInfinity = PosInfinity"
| "numAdd NegInfinity b = NegInfinity"
| "numAdd a NegInfinity = NegInfinity"

text \<open>
  The operator \<^verbatim>\<open>/\<close> with a finite positive divisor \<open>d\<close> (the handler divides by 2 and by
  640): the exact quotient, rounded; infinities and \<^verbatim>\<open>NaN\<close> are kept.
\<close>

fun numDivide :: "jsnum \<Rightarrow> rat \<Rightarrow> jsnum" where
  "numDivide (Finite r) d = round64 (r / d)"
| "numDivide a d = a"

text \<open>
  \<^verbatim>\<open>Number::toString\<close> in radix 10 prints the shortest digit string \<open>s\<close> of \<open>k\<close> digits with
  \<open>s * 10^(n - k)\<close> rounding to the number, and of several such strings the one nearest to
  the number (the even one on a tie). For a candidate length \<open>k\<close> the nearest candidates are
  the two integers around \<open>t = x / 10^(n - k)\<close>.
\<close>

definition chooseDigits :: "rat \<Rightarrow> rat \<Rightarrow> rat \<Rightarrow> int option" where
  "chooseDigits x u t =
     (if round64 (of_int \<lfloor>t\<rfloor> * u) = round64 x
      then (if round64 (of_int (\<lfloor>t\<rfloor> + 1) * u) = round64 x then Some (roundHalfEven t)
            else Some \<lfloor>t\<rfloor>)
      else if round64 (of_int (\<lfloor>t\<rfloor> + 1) * u) = round64 x then Some (\<lfloor>t\<rfloor> + 1)
      else None)"

definition digitsAt :: "rat \<Rightarrow> int \<Rightarrow> nat \<Rightarrow> int option" where
  "digitsAt x n k = chooseDigits x (pow10 (n - int k)) (x / pow10 (n - int k))"

text \<open>
  The search for the least \<open>k\<close>, from \<open>k\<close> upwards. Seventeen digits identify every binary64
  value, so the search started at 1 with fuel 17 ends in its second equation.
\<close>

fun shortestDigits :: "rat \<Rightarrow> int \<Rightarrow> nat \<Rightarrow> nat \<Rightarrow> int \<times> nat" where
  "shortestDigits x n k 0 = (\<lfloor>x / pow10 (n - int k)\<rfloor>, k)"
| "shortestDigits x n k (Suc fuel) =
     (case digitsAt x n k of
        Some s \<Rightarrow> (s, k)
      | None \<Rightarrow> shortestDigits x n (Suc k) fuel)"

text \<open>
  With \<open>10^(n - 1) \<le> x < 10^n\<close> the digits found lie between \<open>10^(k - 1)\<close> and \<open>10^k\<close>. The
  upper bound itself is reached when the number prints as a power of ten above it (the
  binary64 value of \<^verbatim>\<open>1e23\<close> is smaller than \<open>10^23\<close>): the digit string is then \<open>1\<close> and the
  exponent one more.
\<close>

definition normalizeDigits :: "int \<times> nat \<Rightarrow> int \<Rightarrow> nat \<times> int" where
  "normalizeDigits sk n =
     (if fst sk = 10 ^ snd sk then (1, n + 1) else (nat (fst sk), n))"

text \<open>The pair \<open>(s, n)\<close> of a positive finite number.\<close>

definition numberDigits :: "rat \<Rightarrow> nat \<times> int" where
  "numberDigits x =
     normalizeDigits (shortestDigits x (logSteps 10 400 x 0 + 1) 1 17) (logSteps 10 400 x 0 + 1)"

text \<open>
  The notation: positional for \<open>-5 \<le> n \<le> 21\<close>, otherwise one digit, the fraction, and the
  exponent \<open>n - 1\<close> with its sign.
\<close>

definition formatNumber :: "nat \<times> int \<Rightarrow> string" where
  "formatNumber sn =
     (let ds = decimal (fst sn);
          n = snd sn;
          k = int (length ds);
          e = n - 1;
          exponent = (if e < 0 then ''-'' else ''+'') @ decimal (nat \<bar>e\<bar>)
      in if - 5 \<le> n \<and> n \<le> 21
         then (if k \<le> n then ds @ replicate (nat (n - k)) CHR ''0''
               else if 0 < n then take (nat n) ds @ ''.'' @ drop (nat n) ds
               else ''0.'' @ replicate (nat (- n)) CHR ''0'' @ ds)
         else (if k = 1 then ds @ ''e'' @ exponent
               else take 1 ds @ ''.'' @ drop 1 ds @ ''e'' @ exponent))"

definition numberToString :: "jsnum \<Rightarrow> string" where
  "numberToString x =
     (case x of
        NotANumber \<Rightarrow> ''NaN''
      | PosInfinity \<Rightarrow> ''Infinity''
      | NegInfinity \<Rightarrow> ''-Infinity''
      | Finite v \<Rightarrow>
          if v = 0 then ''0''
          else (if v < 0 then ''-'' else []) @ formatNumber (numberDigits \<bar>v\<bar>))"

section \<open>Label conversion\<close>

text \<open>
  \<^verbatim>\<open>Number.prototype.toFixed(6)\<close>. A number that is not finite, or of magnitude \<open>10^21\<close> or
  more, is printed by \<^verbatim>\<open>Number::toString\<close>. Otherwise the result is the sign, then the
  integer \<open>n\<close> nearest to \<open>|v| * 10^6\<close> (the larger one on a tie), written with six digits
  after the point.
\<close>

definition toFixed6 :: "jsnum \<Rightarrow> string" where
  "toFixed6 x =
     (case x of
        Finite v \<Rightarrow>
          if \<bar>v\<bar> < 10 ^ 21
          then (let n = nat \<lfloor>\<bar>v\<bar> * 1000000 + 1 / 2\<rfloor>;
                    b = decimal (n mod 1000000)
                in (if v < 0 then ''-'' else []) @
                   decimal (n div 1000000) @ ''.'' @ replicate (6 - length b) CHR ''0'' @ b)
          else numberToString x
      | _ \<Rightarrow> numberToString x)"

record annotation_class =
  cls_name :: string
  cls_datasetId :: string
  cls_userId :: string

text \<open>
  \<^verbatim>\<open>classMapping\<close>: the reducer assigns \<^verbatim>\<open>acc[cls.name] = index\<close>. Assigning a number to
  \<^verbatim>\<open>__proto__\<close> creates no property.
\<close>

definition classMappingOf :: "string list \<Rightarrow> (string \<rightharpoonup> nat)" where
  "classMappingOf names =
     foldl (\<lambda>acc (name, index). if name = ''__proto__'' then acc else acc(name \<mapsto> index))
       Map.empty (zip names [0 ..< length names])"

text \<open>
  \<^verbatim>\<open>classMapping[label] || 0\<close>: a missing entry and the index 0 both give 0. The mapping
  is a plain object: a label that names a member of \<^verbatim>\<open>Object.prototype\<close> and no class reads
  the inherited member, which is truthy.
\<close>

datatype class_id = ClassIndex nat | InheritedMember string

definition classIdOf :: "(string \<rightharpoonup> nat) \<Rightarrow> string \<Rightarrow> class_id" where
  "classIdOf classMapping label =
     (case classMapping label of
        Some index \<Rightarrow> if index = 0 then ClassIndex 0 else ClassIndex index
      | None \<Rightarrow>
          if label \<in> set objectPrototypeKeys then InheritedMember label else ClassIndex 0)"

text \<open>
  The string the template literal interpolates: the digits of an index;
  \<^verbatim>\<open>[object Object]\<close> for \<^verbatim>\<open>Object.prototype\<close> itself, which \<^verbatim>\<open>__proto__\<close> reads; for an
  inherited method its source text as V8 prints a built-in function.
\<close>

fun classIdToString :: "class_id \<Rightarrow> string" where
  "classIdToString (ClassIndex index) = decimal index"
| "classIdToString (InheritedMember name) =
     (if name = ''__proto__'' then ''[object Object]''
      else if name = ''constructor'' then ''function Object() { [native code] }''
      else ''function '' @ name @ ''() { [native code] }'')"

text \<open>
  The fields \<^verbatim>\<open>x\<close>, \<^verbatim>\<open>y\<close>, \<^verbatim>\<open>width\<close> and \<^verbatim>\<open>height\<close> are read from the JSON column as
  numbers.
\<close>

definition yoloLine :: "(string \<rightharpoonup> nat) \<Rightarrow> annotation \<Rightarrow> string" where
  "yoloLine classMapping ann =
     (let d = ann_data ann;
          x = round64 (box_x d);
          y = round64 (box_y d);
          width = round64 (box_width d);
          height = round64 (box_height d);
          imageWidth = 640;
          imageHeight = 640;
          centerX = numDivide (numAdd x (numDivide width 2)) imageWidth;
          centerY = numDivide (numAdd y (numDivide height 2)) imageHeight;
          normWidth = numDivide width imageWidth;
          normHeight = numDivide height imageHeight;
          classId = classIdOf classMapping (box_label d)
      in classIdToString classId @ '' '' @ toFixed6 centerX @ '' '' @ toFixed6 centerY @ '' '' @
         toFixed6 normWidth @ '' '' @ toFixed6 normHeight)"

definition yoloAnnotations :: "(string \<rightharpoonup> nat) \<Rightarrow> annotation list \<Rightarrow> string" where
  "yoloAnnotations classMapping imageAnnotations =
     join ''\<newline>'' (map (yoloLine classMapping) imageAnnotations)"

text \<open>
  \<^verbatim>\<open>imageFile.replace(/\.[^/.]+$/, '.txt')\<close>: the match starts at the last dot, and exists
  only if at least one character follows it and none of them is a slash.
\<close>

definition labelFileName :: "string \<Rightarrow> string" where
  "labelFileName imageFile =
     (let ext = rev (takeWhile (\<lambda>c. c \<noteq> CHR ''.'') (rev imageFile))
      in if CHR ''.'' \<in> set imageFile \<and> ext \<noteq> [] \<and> CHR ''/'' \<notin> set ext
         then take (length imageFile - length ext - 1) imageFile @ ''.txt''
         else imageFile)"

section \<open>The training configuration manifest\<close>

text \<open>
  The fields of \<^verbatim>\<open>trainingConfig\<close> are JSON scalars; \<open>JUndefined\<close> is an omitted field.
  Nested objects and arrays as field values are outside the model. \<open>JNum r\<close> is the number
  written as the decimal \<open>r\<close>, in the request body or in the program text: its value is
  \<open>round64 r\<close>.
\<close>

datatype jsval = JUndefined | JNull | JBool bool | JNum rat | JStr string

record training_config =
  cfg_epochs :: jsval
  cfg_batchSize :: jsval
  cfg_imgSize :: jsval
  cfg_learningRate :: jsval
  cfg_modelType :: jsval
  cfg_datasetSplitRatio :: jsval

fun truthy :: "jsval \<Rightarrow> bool" where
  "truthy JUndefined = False"
| "truthy JNull = False"
| "truthy (JBool b) = b"
| "truthy (JNum r) = (round64 r \<noteq> Finite 0)"
| "truthy (JStr s) = (s \<noteq> [])"

text \<open>The operator \<^verbatim>\<open>||\<close>.\<close>

definition orElse :: "jsval \<Rightarrow> jsval \<Rightarrow> jsval" where
  "orElse v d = (if truthy v then v else d)"

text \<open>The string a template literal interpolates.\<close>

fun jsToString :: "jsval \<Rightarrow> string" where
  "jsToString JUndefined = ''undefined''"
| "jsToString JNull = ''null''"
| "jsToString (JBool b) = (if b then ''true'' else ''false'')"
| "jsToString (JNum r) = numberToString (round64 r)"
| "jsToString (JStr s) = s"

definition createConfigYaml :: "training_config \<Rightarrow> string list \<Rightarrow> string \<Rightarrow> nat \<Rightarrow> string" where
  "createConfigYaml trainingConfig names datasetName timestamp =
     (let epochs = orElse (cfg_epochs trainingConfig) (JNum 100);
          batchSize = orElse (cfg_batchSize trainingConfig) (JNum 16);
          imgSize = orElse (cfg_imgSize trainingConfig) (JNum 640);
          learningRate = orElse (cfg_learningRate trainingConfig) (JNum (1 / 1000));
          modelType = orElse (cfg_modelType trainingConfig) (JStr ''yolov8recommended'');
          datasetSplitRatio = orElse (cfg_datasetSplitRatio trainingConfig) (JStr ''80/20'');
          projectName = datasetName @ ''_Training_'' @ decimal timestamp
      in ''epochs: '' @ jsToString epochs @ ''\<newline>'' @
         ''batch_size: '' @ jsToString batchSize @ ''\<newline>'' @
         ''img_size: '' @ jsToString imgSize @ ''\<newline>'' @
         ''learning_rate: '' @ jsToString learningRate @ ''\<newline>'' @
         ''model: '' @ jsToString modelType @ ''\<newline>'' @
         ''num_classes: '' @ decimal (length names) @ ''\<newline>'' @
         ''class_names:\<newline>'' @
         join ''\<newline>'' (map (\<lambda>name. ''  - '' @ name) names) @ ''\<newline>'' @
         ''project_name: '' @ projectName @ ''\<newline>'' @
         ''train_val_split: '' @ jsToString datasetSplitRatio @ ''\<newline>'')"

section \<open>Collaborators: database, dataset storage, worker\<close>

type_synonym bytes = "nat list"

text \<open>
  The archive under construction: the main folder, its two subfolders as maps from entry
  name to content (\<^verbatim>\<open>folder.file(name, data)\<close> replaces an entry of the same name), and
  \<^verbatim>\<open>config.yaml\<close>.
\<close>

record archive =
  mainDatasetFolder :: string
  imagesFolder :: "string \<rightharpoonup> bytes"
  labelsFolder :: "string \<rightharpoonup> string"
  configYaml :: "string option"

text \<open>The multipart form posted to \<^verbatim>\<open>/upload-dataset\<close>.\<close>

record upload_request =
  form_file :: archive
  form_fileName :: string
  form_uploadPath :: string
  form_bucket :: string
  form_autoStartTraining :: string
  form_trainingConfig :: training_config

text \<open>
  The parsed body of the worker's answer; \<open>up_success\<close> is the truthiness of its
  \<^verbatim>\<open>success\<close> property.
\<close>

record upload_result =
  up_success :: bool
  up_fileName :: string
  up_presignedUrl :: string
  up_bucket :: string
  up_uploadPath :: string

text \<open>
  \<open>JsonThrows\<close>: \<^verbatim>\<open>uploadResponse.json()\<close> rejects, or yields \<^verbatim>\<open>null\<close> so that reading
  \<^verbatim>\<open>.success\<close> throws; the string is the message of the error.
  \<open>FetchRejects\<close>: \<^verbatim>\<open>fetch\<close> itself rejects (transport failure).
  \<open>HttpResponse status text json\<close>: an answer with its status, its body as text and its body
  as JSON.
\<close>

datatype body_json = JsonThrows string | JsonValue upload_result

datatype worker_reply = FetchRejects string | HttpResponse nat string body_json

text \<open>\<^verbatim>\<open>Response.ok\<close>.\<close>

definition responseOk :: "nat \<Rightarrow> bool" where
  "responseOk status = (200 \<le> status \<and> status \<le> 299)"

text \<open>
  What the handler reads from outside: the four tables it queries (the database is assumed
  to answer), the dataset directory listing and the image files (\<open>None\<close>: the call rejects),
  the clock, the worker, and the engine's case mapping behind \<^verbatim>\<open>toLowerCase\<close>.
\<close>

record world =
  projects :: "(string \<times> string) list"
  datasets :: "(string \<times> string) list"
  annotationTable :: "annotation list"
  annotationClassTable :: "annotation_class list"
  readdir :: "string \<Rightarrow> string list option"
  access :: "string \<Rightarrow> string \<Rightarrow> bool"
  readFile :: "string \<Rightarrow> string \<Rightarrow> bytes option"
  now :: nat
  worker :: "upload_request \<Rightarrow> worker_reply"
  caseMapping :: "string \<Rightarrow> string"

datatype event =
    DbProjectFindFirst
  | DbDatasetFindFirst
  | DbAnnotationFindMany
  | DbAnnotationClassFindMany
  | FsReaddir string
  | FsAccess string string
  | FsReadFile string string
  | WorkerUploadDataset string

fun isFileIO :: "event \<Rightarrow> bool" where
  "isFileIO (FsReaddir d) = True"
| "isFileIO (FsAccess d f) = True"
| "isFileIO (FsReadFile d f) = True"
| "isFileIO e = False"

section \<open>Archive assembly\<close>

text \<open>
  The body of the loop over \<^verbatim>\<open>annotatedImageFiles\<close>. A rejected \<^verbatim>\<open>fs.access\<close> or
  \<^verbatim>\<open>fs.readFile\<close> is caught inside the loop, which continues with the next file.
\<close>

definition processImage ::
  "world \<Rightarrow> string \<Rightarrow> (string \<rightharpoonup> nat) \<Rightarrow> (string \<rightharpoonup> annotation list) \<Rightarrow>
   archive \<times> event list \<Rightarrow> string \<Rightarrow> archive \<times> event list" where
  "processImage w datasetId classMapping annotationMap st imageFile =
     (let zipArchive = fst st;
          trace = snd st;
          imageAnnotations = (case annotationMap imageFile of None \<Rightarrow> [] | Some anns \<Rightarrow> anns)
      in if \<not> access w datasetId imageFile
         then (zipArchive, trace @ [FsAccess datasetId imageFile])
         else (case readFile w datasetId imageFile of
                 None \<Rightarrow>
                   (zipArchive, trace @ [FsAccess datasetId imageFile, FsReadFile datasetId imageFile])
               | Some imageBuffer \<Rightarrow>
                   (zipArchive\<lparr>imagesFolder := (imagesFolder zipArchive)(imageFile \<mapsto> imageBuffer),
                        labelsFolder := (labelsFolder zipArchive)
                          (labelFileName imageFile \<mapsto> yoloAnnotations classMapping imageAnnotations)\<rparr>,
                    trace @ [FsAccess datasetId imageFile, FsReadFile datasetId imageFile])))"

definition buildArchive ::
  "world \<Rightarrow> string \<Rightarrow> string \<Rightarrow> nat \<Rightarrow> string list \<Rightarrow> training_config \<Rightarrow>
   reconciliation \<Rightarrow> archive \<times> event list" where
  "buildArchive w datasetId datasetName timestamp names trainingConfig rec =
     (let emptyArchive = \<lparr>mainDatasetFolder = datasetName @ ''_Training_'' @ decimal timestamp,
                  imagesFolder = Map.empty, labelsFolder = Map.empty, configYaml = None\<rparr>;
          st = foldl (processImage w datasetId (classMappingOf names) (imageAnnotationMap rec))
                 (emptyArchive, []) (annotatedImageFiles rec)
      in ((fst st)\<lparr>configYaml := Some (createConfigYaml trainingConfig names datasetName timestamp)\<rparr>,
          snd st))"

section \<open>Dispatch to the worker\<close>

text \<open>
  The \<^verbatim>\<open>try\<close> block around the upload: \<open>Inl\<close> is the message of the error that reaches the
  inner \<^verbatim>\<open>catch\<close>, \<open>Inr\<close> the accepted result.
\<close>

definition uploadThroughWorker :: "worker_reply \<Rightarrow> string + upload_result" where
  "uploadThroughWorker reply =
     (case reply of
        FetchRejects message \<Rightarrow> Inl message
      | HttpResponse status errorText json \<Rightarrow>
          if \<not> responseOk status
          then Inl (''Worker upload failed: '' @ decimal status @ '' - '' @ errorText)
          else (case json of
                  JsonThrows message \<Rightarrow> Inl message
                | JsonValue uploadResult \<Rightarrow>
                    if \<not> up_success uploadResult
                    then Inl ''Worker upload failed: No success flag in response''
                    else Inr uploadResult))"

section \<open>The handler of POST /start\<close>

text \<open>
  The body of the 200 answer without its two constant fields, \<^verbatim>\<open>message\<close> and
  \<^verbatim>\<open>downloadUrlExpiresIn\<close>.
\<close>

record success_payload =
  res_trainingId :: string
  res_objectName :: string
  res_bucketName :: string
  res_downloadUrl :: string
  res_totalAnnotatedImages :: nat
  res_totalAnnotations :: nat
  res_classNames :: "string list"
  res_trainingConfig :: training_config
  res_uploadPath :: string

text \<open>
  The answers of the handler, named as in the error taxonomy of the specification:
  400 with the validation errors; 404 for the project; 404 for the dataset;
  400 \<^verbatim>\<open>No annotations found for this dataset\<close>;
  400 \<^verbatim>\<open>No images could be matched with annotations\<close> with \<^verbatim>\<open>debug.availableImages\<close> and
  \<^verbatim>\<open>debug.annotationImageIds\<close>;
  500 \<^verbatim>\<open>Failed to upload dataset through worker\<close> with \<^verbatim>\<open>details\<close>;
  500 \<^verbatim>\<open>Internal server error\<close> from the outer \<^verbatim>\<open>catch\<close>;
  200 with the success payload.
\<close>

datatype response =
    ValidationError
  | ProjectNotFound
  | DatasetNotFound
  | NoAnnotationsError
  | NoMatchedImagesError "string list" "string list"
  | UploadDispatchError string
  | InternalServerError
  | Succeeded success_payload

text \<open>
  The request body after \<^verbatim>\<open>authenticateToken\<close>; \<open>None\<close> is a field that is missing or of
  the wrong type.
\<close>

record request =
  body_projectId :: "string option"
  body_datasetId :: "string option"
  body_datasetName :: "string option"
  body_trainingConfig :: "training_config option"
  user_userId :: string

text \<open>\<^verbatim>\<open>validateTraining\<close>: three non-empty strings and an object.\<close>

definition validateTraining ::
  "request \<Rightarrow> (string \<times> string \<times> string \<times> training_config) option" where
  "validateTraining req =
     (case (body_projectId req, body_datasetId req, body_datasetName req, body_trainingConfig req) of
        (Some projectId, Some datasetId, Some datasetName, Some trainingConfig) \<Rightarrow>
          if projectId \<noteq> [] \<and> datasetId \<noteq> [] \<and> datasetName \<noteq> []
          then Some (projectId, datasetId, datasetName, trainingConfig)
          else None
      | _ \<Rightarrow> None)"

text \<open>From the upload to the answer (lines 316 to 383).\<close>

definition dispatch ::
  "world \<Rightarrow> string \<Rightarrow> string \<Rightarrow> training_config \<Rightarrow> nat \<Rightarrow> string list \<Rightarrow>
   nat \<Rightarrow> nat \<Rightarrow> archive \<Rightarrow> response \<times> event list" where
  "dispatch w userId datasetName trainingConfig timestamp names numImages numAnnotations zipArchive =
     (let uploadPath = userId @ ''/'' @ datasetName @ ''_'' @ decimal timestamp;
          formData = \<lparr>form_file = zipArchive, form_fileName = uploadPath @ ''.zip'',
                      form_uploadPath = uploadPath, form_bucket = ''datasets'',
                      form_autoStartTraining = ''true'', form_trainingConfig = trainingConfig\<rparr>
      in (case uploadThroughWorker (worker w formData) of
            Inl details \<Rightarrow> (UploadDispatchError details, [WorkerUploadDataset uploadPath])
          | Inr uploadResult \<Rightarrow>
              (Succeeded
                 \<lparr>res_trainingId = ''training_'' @ decimal timestamp,
                  res_objectName = up_fileName uploadResult,
                  res_bucketName = up_bucket uploadResult,
                  res_downloadUrl = up_presignedUrl uploadResult,
                  res_totalAnnotatedImages = numImages,
                  res_totalAnnotations = numAnnotations,
                  res_classNames = names,
                  res_trainingConfig = trainingConfig,
                  res_uploadPath = up_uploadPath uploadResult\<rparr>,
               [WorkerUploadDataset uploadPath])))"

text \<open>From the directory listing to the answer (lines 155 to 383).\<close>

definition exportDataset ::
  "world \<Rightarrow> string \<Rightarrow> string \<Rightarrow> string \<Rightarrow> training_config \<Rightarrow> nat \<Rightarrow>
   annotation list \<Rightarrow> string list \<Rightarrow> string list \<Rightarrow> string list \<Rightarrow> response \<times> event list" where
  "exportDataset w userId datasetId datasetName trainingConfig timestamp
       annotations names uniqueImageIds datasetFiles =
     (let rec = reconcile (caseMapping w) annotations uniqueImageIds
                  (filter (isImageFile (caseMapping w)) datasetFiles)
      in if length (annotatedImageFiles rec) = 0
         then (NoMatchedImagesError (take 10 (imageFiles rec)) uniqueImageIds, [])
         else (let built = buildArchive w datasetId datasetName timestamp names trainingConfig rec;
                   sent = dispatch w userId datasetName trainingConfig timestamp names
                            (length (annotatedImageFiles rec)) (length annotations) (fst built)
               in (fst sent, snd built @ snd sent)))"

text \<open>The four queries: \<^verbatim>\<open>findFirst\<close> on projects and datasets, \<^verbatim>\<open>findMany\<close> on the rest.\<close>

definition findProject :: "world \<Rightarrow> string \<Rightarrow> string \<Rightarrow> bool" where
  "findProject w projectId userId = list_ex (\<lambda>(i, u). i = projectId \<and> u = userId) (projects w)"

definition findDataset :: "world \<Rightarrow> string \<Rightarrow> string \<Rightarrow> bool" where
  "findDataset w datasetId userId = list_ex (\<lambda>(i, u). i = datasetId \<and> u = userId) (datasets w)"

definition findAnnotations :: "world \<Rightarrow> string \<Rightarrow> annotation list" where
  "findAnnotations w datasetId = filter (\<lambda>a. ann_datasetId a = datasetId) (annotationTable w)"

definition findAnnotationClasses :: "world \<Rightarrow> string \<Rightarrow> string \<Rightarrow> annotation_class list" where
  "findAnnotationClasses w datasetId userId =
     filter (\<lambda>c. cls_datasetId c = datasetId \<and> cls_userId c = userId) (annotationClassTable w)"

text \<open>
  From the check for annotations to the answer (lines 107 to 383); \<open>queried\<close> are the
  events so far.
\<close>

definition exportAnnotations ::
  "world \<Rightarrow> string \<Rightarrow> string \<Rightarrow> string \<Rightarrow> training_config \<Rightarrow> annotation list \<Rightarrow>
   response \<times> event list" where
  "exportAnnotations w userId datasetId datasetName trainingConfig annotations =
     (if length annotations = 0 then (NoAnnotationsError, [])
      else (let annotationClasses = findAnnotationClasses w datasetId userId;
                names = map cls_name annotationClasses;
                timestamp = now w
            in (case annotationsByImage annotations of
                  None \<Rightarrow> (InternalServerError, [DbAnnotationClassFindMany])
                | Some grouped \<Rightarrow>
                    (case readdir w datasetId of
                       None \<Rightarrow> (InternalServerError, [DbAnnotationClassFindMany, FsReaddir datasetId])
                     | Some datasetFiles \<Rightarrow>
                         (let out = exportDataset w userId datasetId datasetName trainingConfig
                                      timestamp annotations names (objectKeys grouped) datasetFiles
                          in (fst out,
                              [DbAnnotationClassFindMany, FsReaddir datasetId] @ snd out))))))"

definition startTraining :: "world \<Rightarrow> request \<Rightarrow> response \<times> event list" where
  "startTraining w req =
     (case validateTraining req of
        None \<Rightarrow> (ValidationError, [])
      | Some (projectId, datasetId, datasetName, trainingConfig) \<Rightarrow>
          (let userId = user_userId req
           in if \<not> findProject w projectId userId
              then (ProjectNotFound, [DbProjectFindFirst])
              else if \<not> findDataset w datasetId userId
              then (DatasetNotFound, [DbProjectFindFirst, DbDatasetFindFirst])
              else (let annotations = findAnnotations w datasetId;
                        out = exportAnnotations w userId datasetId datasetName trainingConfig
                                annotations
                    in (fst out,
                        [DbProjectFindFirst, DbDatasetFindFirst, DbAnnotationFindMany] @ snd out))))"

section \<open>Notions used in the statements\<close>

text \<open>The elements of a list in the order of their first occurrence.\<close>

fun firstOccurrences :: "'a list \<Rightarrow> 'a list" where
  "firstOccurrences [] = []"
| "firstOccurrences (x # xs) = x # removeAll x (firstOccurrences xs)"

text \<open>
  The file under which \<open>normalStep\<close> files an annotation: the first file of the listing that
  passes the \<^verbatim>\<open>find\<close> predicate, provided it is truthy.
\<close>

definition assignedFile :: "(string \<Rightarrow> string) \<Rightarrow> string list \<Rightarrow> annotation \<Rightarrow> string option" where
  "assignedFile lc files ann =
     (case matchingImageFile lc files (imageId ann) of
        None \<Rightarrow> None
      | Some file \<Rightarrow> if file = [] then None else Some file)"

text \<open>
  The \<open>i\<close>-th contiguous chunk of a list cut into pieces of
  \<open>ceil(length / min(length, numFiles))\<close> elements.
\<close>

definition specChunk :: "'a list \<Rightarrow> nat \<Rightarrow> nat \<Rightarrow> 'a list" where
  "specChunk xs numFiles i =
     (let size = nat \<lceil>(of_nat (length xs) :: rat) / of_nat (min (length xs) numFiles)\<rceil>
      in take size (drop (i * size) xs))"


text \<open>The files of the fallback path with their chunks, in the order of assignment.\<close>

definition expandAssignments :: "annotation list \<Rightarrow> string list \<Rightarrow> (string \<times> annotation list) list" where
  "expandAssignments annotations files =
     map (\<lambda>i. (sort files ! i, specChunk annotations (length files) i))
       (filter (\<lambda>i. specChunk annotations (length files) i \<noteq> [])
          [0 ..< min (length annotations) (length files)])"

text \<open>An image file that the loop of the archive assembly can read.\<close>

definition readable :: "world \<Rightarrow> string \<Rightarrow> string \<Rightarrow> bool" where
  "readable w datasetId file = (access w datasetId file \<and> readFile w datasetId file \<noteq> None)"

text \<open>The file-system events of one iteration of that loop.\<close>

definition readEvents :: "world \<Rightarrow> string \<Rightarrow> string \<Rightarrow> event list" where
  "readEvents w datasetId file =
     (if access w datasetId file
      then [FsAccess datasetId file, FsReadFile datasetId file]
      else [FsAccess datasetId file])"

text \<open>The invariant of the loop of the normal path after the annotations \<open>anns\<close>.\<close>

definition normalInv ::
  "(string \<Rightarrow> string) \<Rightarrow> string list \<Rightarrow> annotation list \<Rightarrow> reconciliation \<Rightarrow> bool" where
  "normalInv lc files anns r \<longleftrightarrow>
     imageFiles r = files \<and>
     annotatedImageFiles r = firstOccurrences (List.map_filter (assignedFile lc files) anns) \<and>
     (\<forall>file. imageAnnotationMap r file =
        (if file \<in> set (List.map_filter (assignedFile lc files) anns)
         then Some (filter (\<lambda>a. assignedFile lc files a = Some file) anns)
         else None))"

section \<open>Concrete inputs\<close>

definition exampleBox :: box_data where
  "exampleBox = \<lparr>box_x = 10, box_y = 20, box_width = 100, box_height = 50, box_label = ''cat''\<rparr>"

definition mkAnnotation :: "string \<Rightarrow> string \<Rightarrow> annotation" where
  "mkAnnotation i img =
     \<lparr>ann_id = i, ann_classId = ''c1'', imageId = img, ann_datasetId = ''d1'', ann_data = exampleBox\<rparr>"

definition sampleFiles :: "string list" where
  "sampleFiles = [''a.jpg'', ''b.jpg'', ''c.png'']"

definition sampleAnnotations :: "annotation list" where
  "sampleAnnotations =
     [mkAnnotation ''1'' ''B.JPG'', mkAnnotation ''2'' ''zzz.jpg'',
      mkAnnotation ''3'' ''a.jpg'', mkAnnotation ''4'' ''b.jpg'']"

definition fiveAnnotations :: "annotation list" where
  "fiveAnnotations = map (\<lambda>i. mkAnnotation i ''only.jpg'') [''1'', ''2'', ''3'', ''4'', ''5'']"

definition fourFiles :: "string list" where
  "fourFiles = [''d.jpg'', ''b.jpg'', ''a.jpg'', ''c.jpg'']"

definition sampleConfig :: training_config where
  "sampleConfig =
     \<lparr>cfg_epochs = JNum 50, cfg_batchSize = JUndefined, cfg_imgSize = JUndefined,
      cfg_learningRate = JUndefined, cfg_modelType = JUndefined,
      cfg_datasetSplitRatio = JUndefined\<rparr>"

definition sampleRequest :: request where
  "sampleRequest =
     \<lparr>body_projectId = Some ''p1'', body_datasetId = Some ''d1'', body_datasetName = Some ''pets'',
      body_trainingConfig = Some sampleConfig, user_userId = ''u1''\<rparr>"

definition acceptedUpload :: upload_result where
  "acceptedUpload =
     \<lparr>up_success = True, up_fileName = ''u1/pets_1700000000000.zip'',
      up_presignedUrl = ''https://minio.example/datasets/u1/pets_1700000000000.zip'',
      up_bucket = ''datasets'', up_uploadPath = ''u1/pets_1700000000000''\<rparr>"

text \<open>
  A world with one project, one dataset and one class of user \<open>u1\<close>, the given annotation
  table, directory listing of dataset \<open>d1\<close>, file contents and worker answer.
\<close>

definition sampleWorld ::
  "annotation list \<Rightarrow> string list \<Rightarrow> (string \<Rightarrow> bytes option) \<Rightarrow> worker_reply \<Rightarrow> world" where
  "sampleWorld anns listing contents reply =
     \<lparr>projects = [(''p1'', ''u1'')], datasets = [(''d1'', ''u1'')],
      annotationTable = anns,
      annotationClassTable = [\<lparr>cls_name = ''cat'', cls_datasetId = ''d1'', cls_userId = ''u1''\<rparr>],
      readdir = (\<lambda>d. if d = ''d1'' then Some listing else None),
      access = (\<lambda>d f. contents f \<noteq> None),
      readFile = (\<lambda>d f. contents f),
      now = 1700000000000,
      worker = (\<lambda>form. reply),
      caseMapping = asciiLower\<rparr>"

definition acceptingReply :: worker_reply where
  "acceptingReply = HttpResponse 200 [] (JsonValue acceptedUpload)"

text \<open>The sample annotations and files, where only \<open>b.jpg\<close> can be read.\<close>

definition partialWorld :: world where
  "partialWorld =
     sampleWorld sampleAnnotations sampleFiles
       (\<lambda>f. if f = ''b.jpg'' then Some [1, 2, 3] else None) acceptingReply"

text \<open>One annotation of \<open>a.jpg\<close>, the only file, which cannot be read.\<close>

definition unreadableWorld :: world where
  "unreadableWorld =
     sampleWorld [mkAnnotation ''1'' ''a.jpg''] [''a.jpg''] (\<lambda>f. None) acceptingReply"

text \<open>An answer with status 200 whose body \<open>{}\<close> has no success flag.\<close>

definition flaglessReply :: worker_reply where
  "flaglessReply =
     HttpResponse 200 ''{}''
       (JsonValue \<lparr>up_success = False, up_fileName = [], up_presignedUrl = [], up_bucket = [],
                   up_uploadPath = []\<rparr>)"

definition flaglessWorld :: world where
  "flaglessWorld =
     sampleWorld [mkAnnotation ''1'' ''a.jpg''] [''a.jpg''] (\<lambda>f. Some [1, 2, 3]) flaglessReply"

text \<open>
  One annotation whose imageId is \<open>constructor\<close>, in a dataset with two image files.
\<close>

definition constructorWorld :: world where
  "constructorWorld =
     sampleWorld [mkAnnotation ''1'' ''constructor''] [''a.jpg'', ''b.jpg''] (\<lambda>f. Some [1, 2, 3])
       acceptingReply"

section \<open>Unique imageIds\<close>
lemma groupStep_map_fst:
  assumes "groupStep acc ann = Some acc'"
  shows "set (map fst acc') = insert (imageId ann) (set (map fst acc))"
    and "distinct (map fst acc) \<Longrightarrow> distinct (map fst acc')"
proof -
  have eq: "map fst (map (\<lambda>(k, v). if k = imageId ann then (k, v @ [ann]) else (k, v)) acc) = map fst acc"
    by (induction acc) auto
  show "set (map fst acc') = insert (imageId ann) (set (map fst acc))"
  proof (cases "map_of acc (imageId ann)")
    case None
    with assms have "acc' = acc @ [(imageId ann, [ann])]"
      by (simp add: groupStep_def split: if_splits)
    then show ?thesis by simp
  next
    case (Some anns)
    with assms have a: "acc' = map (\<lambda>(k, v). if k = imageId ann then (k, v @ [ann]) else (k, v)) acc"
      by (simp add: groupStep_def split: if_splits)
    from Some have "imageId ann \<in> fst ` set acc"
      by (meson domI domIff map_of_eq_None_iff)
    then show ?thesis unfolding a eq by auto
  qed
  show "distinct (map fst acc) \<Longrightarrow> distinct (map fst acc')"
  proof (cases "map_of acc (imageId ann)")
    case None
    with assms have "acc' = acc @ [(imageId ann, [ann])]"
      by (simp add: groupStep_def split: if_splits)
    moreover from None have "imageId ann \<notin> fst ` set acc"
      by (simp add: map_of_eq_None_iff)
    moreover assume "distinct (map fst acc)"
    ultimately show ?thesis by simp
  next
    case (Some anns)
    with assms have a: "acc' = map (\<lambda>(k, v). if k = imageId ann then (k, v @ [ann]) else (k, v)) acc"
      by (simp add: groupStep_def split: if_splits)
    assume "distinct (map fst acc)"
    then show ?thesis unfolding a eq .
  qed
qed

lemma reduceGroup_keys:
  assumes "reduceGroup acc anns = Some grouped" and "distinct (map fst acc)"
  shows "distinct (map fst grouped) \<and>
         set (map fst grouped) = set (map fst acc) \<union> imageId ` set anns"
  using assms
proof (induction anns arbitrary: acc)
  case Nil
  then show ?case by simp
next
  case (Cons a anns)
  then obtain acc' where s: "groupStep acc a = Some acc'" and r: "reduceGroup acc' anns = Some grouped"
    by (auto split: option.splits)
  from groupStep_map_fst[OF s] Cons.prems(2)
  have d: "distinct (map fst acc')" and k: "set (map fst acc') = insert (imageId a) (set (map fst acc))"
    by auto
  from Cons.IH[OF r d] k show ?case by auto
qed

lemma set_objectKeys: "set (objectKeys obj) = fst ` set obj"
  by (auto simp: objectKeys_def)

lemma length_objectKeys: "length (objectKeys obj) = length obj"
proof -
  have "length (filter isArrayIndex (map fst obj)) + length (filter (\<lambda>k. \<not> isArrayIndex k) (map fst obj))
          = length (map fst obj)"
    by (rule sum_length_filter_compl)
  then show ?thesis by (simp add: objectKeys_def)
qed

lemma distinct_objectKeys: "distinct (map fst obj) \<Longrightarrow> distinct (objectKeys obj)"
  by (auto simp: objectKeys_def)

lemma uniqueImageIds_count:
  assumes "annotationsByImage annotations = Some grouped"
  shows "length (objectKeys grouped) = card (imageId ` set annotations)"
    and "set (objectKeys grouped) = imageId ` set annotations"
    and "distinct (objectKeys grouped)"
proof -
  from reduceGroup_keys[of "[]" annotations grouped] assms
  have d: "distinct (map fst grouped)" and s: "set (map fst grouped) = imageId ` set annotations"
    by (auto simp: annotationsByImage_def)
  show "set (objectKeys grouped) = imageId ` set annotations"
    using s by (simp add: set_objectKeys)
  show "distinct (objectKeys grouped)" using d by (rule distinct_objectKeys)
  show "length (objectKeys grouped) = card (imageId ` set annotations)"
    using d s by (metis distinct_card length_map length_objectKeys)
qed

section \<open>The fallback path is chosen by the count of unique imageIds\<close>

text \<open>
  Whenever the grouping reducer returns, the fallback path is taken exactly when fewer than
  three distinct imageIds occur among the annotations and there are at least twice as many
  image files as distinct imageIds; with two image files and one distinct imageId the
  fallback path is taken.
\<close>

lemma expand_iff_sparse_ids:
  assumes "annotationsByImage annotations = Some grouped"
  shows "(shouldExpandImageSelection (objectKeys grouped) files \<longleftrightarrow>
            card (imageId ` set annotations) < 3 \<and>
            length files \<ge> 2 * card (imageId ` set annotations)) \<and>
         reconcile lc annotations (objectKeys grouped) files =
           (if card (imageId ` set annotations) < 3 \<and>
               length files \<ge> 2 * card (imageId ` set annotations)
            then expandPath annotations files
            else normalPath lc annotations files) \<and>
         (length files = 2 \<and> card (imageId ` set annotations) = 1 \<longrightarrow>
            reconcile lc annotations (objectKeys grouped) files = expandPath annotations files)"
  using uniqueImageIds_count(1)[OF assms]
  by (simp add: shouldExpandImageSelection_def reconcile_def mult.commute)

lemma expand_iff_sparse_ids_instance:
  "annotationsByImage [mkAnnotation ''1'' ''a.jpg''] = Some [(''a.jpg'', [mkAnnotation ''1'' ''a.jpg''])] \<and>
   shouldExpandImageSelection (objectKeys [(''a.jpg'', [mkAnnotation ''1'' ''a.jpg''])]) [''a.jpg'', ''b.jpg''] \<and>
   reconcile asciiLower [mkAnnotation ''1'' ''a.jpg''] (objectKeys [(''a.jpg'', [mkAnnotation ''1'' ''a.jpg''])])
       [''a.jpg'', ''b.jpg''] =
     expandPath [mkAnnotation ''1'' ''a.jpg''] [''a.jpg'', ''b.jpg'']"
proof -
  have h: "annotationsByImage [mkAnnotation ''1'' ''a.jpg''] =
             Some [(''a.jpg'', [mkAnnotation ''1'' ''a.jpg''])]"
    by (simp add: annotationsByImage_def groupStep_def objectPrototypeKeys_def mkAnnotation_def)
  have c: "card (imageId ` set [mkAnnotation ''1'' ''a.jpg'']) = 1"
    by (simp add: mkAnnotation_def)
  from expand_iff_sparse_ids [OF h, of "[''a.jpg'', ''b.jpg'']" asciiLower] h c show ?thesis
    by simp
qed

text \<open>
  The grouping reducer throws exactly on the annotation lists in which some imageId names a
  member of \<^verbatim>\<open>Object.prototype\<close>, and the handler then answers 500 after the fourth query.
\<close>

lemma reduceGroup_None_iff:
  "reduceGroup acc anns = None \<longleftrightarrow> (\<exists>a \<in> set anns. imageId a \<in> set objectPrototypeKeys)"
proof (induction anns arbitrary: acc)
  case Nil
  show ?case by simp
next
  case (Cons ann anns)
  show ?case
  proof (cases "imageId ann \<in> set objectPrototypeKeys")
    case True
    then show ?thesis by (simp add: groupStep_def)
  next
    case False
    then have "groupStep acc ann \<noteq> None"
      by (simp add: groupStep_def split: option.split)
    then obtain acc' where "groupStep acc ann = Some acc'" by blast
    with False Cons.IH[of acc'] show ?thesis by simp
  qed
qed

lemma annotationsByImage_None_iff:
  "annotationsByImage annotations = None \<longleftrightarrow>
     (\<exists>a \<in> set annotations. imageId a \<in> set objectPrototypeKeys)"
  by (simp add: annotationsByImage_def reduceGroup_None_iff)

lemma prototype_imageId_answer:
  assumes "validateTraining req = Some (projectId, datasetId, datasetName, trainingConfig)"
    and "findProject w projectId (user_userId req)"
    and "findDataset w datasetId (user_userId req)"
    and "a \<in> set (findAnnotations w datasetId)"
    and "imageId a \<in> set objectPrototypeKeys"
  shows "startTraining w req =
           (InternalServerError,
            [DbProjectFindFirst, DbDatasetFindFirst, DbAnnotationFindMany,
             DbAnnotationClassFindMany])"
proof -
  from assms(4,5) have none: "annotationsByImage (findAnnotations w datasetId) = None"
    unfolding annotationsByImage_None_iff by blast
  from assms(4) have "findAnnotations w datasetId \<noteq> []" by auto
  with none assms(1-3) show ?thesis
    by (simp add: startTraining_def exportAnnotations_def Let_def)
qed

lemma constructorWorld_facts:
  "validateTraining sampleRequest = Some (''p1'', ''d1'', ''pets'', sampleConfig)"
  "user_userId sampleRequest = ''u1''"
  "findProject constructorWorld ''p1'' ''u1''"
  "findDataset constructorWorld ''d1'' ''u1''"
  "findAnnotations constructorWorld ''d1'' = [mkAnnotation ''1'' ''constructor'']"
  "readdir constructorWorld ''d1'' = Some [''a.jpg'', ''b.jpg'']"
  by (simp_all add: constructorWorld_def sampleWorld_def validateTraining_def sampleRequest_def
        findProject_def findDataset_def findAnnotations_def mkAnnotation_def)

lemma constructor_grouping:
  "annotationsByImage [mkAnnotation ''1'' ''constructor''] = None"
  by (simp add: annotationsByImage_def groupStep_def objectPrototypeKeys_def mkAnnotation_def)

text \<open>
  C1. The fallback path is to be taken exactly when fewer than three distinct imageIds occur
  and there are at least twice as many image files. One annotation whose imageId is
  \<open>constructor\<close> and two image files meet that condition (one distinct imageId, two
  files), but the grouping reducer throws on the inherited member of the plain object, and
  the handler answers 500 before the directory is listed and before any path is chosen.
\<close>

theorem prototype_imageId_aborts_export:
  "card (imageId ` set [mkAnnotation ''1'' ''constructor'']) = 1 \<and>
   filter (isImageFile asciiLower) [''a.jpg'', ''b.jpg''] = [''a.jpg'', ''b.jpg''] \<and>
   length [''a.jpg'', ''b.jpg''] = 2 * card (imageId ` set [mkAnnotation ''1'' ''constructor'']) \<and>
   annotationsByImage [mkAnnotation ''1'' ''constructor''] = None \<and>
   startTraining constructorWorld sampleRequest =
     (InternalServerError,
      [DbProjectFindFirst, DbDatasetFindFirst, DbAnnotationFindMany, DbAnnotationClassFindMany])"
proof -
  have c: "card (imageId ` set [mkAnnotation ''1'' ''constructor'']) = 1"
    by (simp add: mkAnnotation_def)
  have f: "filter (isImageFile asciiLower) [''a.jpg'', ''b.jpg''] = [''a.jpg'', ''b.jpg'']"
    by code_simp
  have s: "startTraining constructorWorld sampleRequest =
     (InternalServerError,
      [DbProjectFindFirst, DbDatasetFindFirst, DbAnnotationFindMany, DbAnnotationClassFindMany])"
    by (simp add: startTraining_def exportAnnotations_def Let_def constructorWorld_facts
          constructor_grouping)
  from c f s constructor_grouping show ?thesis by simp
qed

section \<open>The normal path\<close>

lemma set_firstOccurrences: "set (firstOccurrences xs) = set xs"
  by (induction xs) auto

lemma distinct_firstOccurrences: "distinct (firstOccurrences xs)"
  by (induction xs) (auto simp: distinct_removeAll)

lemma firstOccurrences_snoc:
  "firstOccurrences (xs @ [x]) =
     (if x \<in> set xs then firstOccurrences xs else firstOccurrences xs @ [x])"
  by (induction xs) auto

lemma matchingImageFile_Some:
  assumes "matchingImageFile lc files imgId = Some file"
  shows "file \<in> set files" and "imgId = file \<or> toLowerCase lc imgId = toLowerCase lc file"
  using assms
  by (auto simp: matchingImageFile_def matchesImageFile_def find_Some_iff)

lemma matchingImageFile_None:
  "matchingImageFile lc files imgId = None \<longleftrightarrow>
     (\<forall>f \<in> set files. imgId \<noteq> f \<and> toLowerCase lc imgId \<noteq> toLowerCase lc f)"
  by (auto simp: matchingImageFile_def matchesImageFile_def find_None_iff)

lemma map_filter_snoc:
  "List.map_filter f (xs @ [x]) =
     List.map_filter f xs @ (case f x of None \<Rightarrow> [] | Some y \<Rightarrow> [y])"
  by (simp add: List.map_filter_def split: option.splits)

lemma set_map_filter: "set (List.map_filter f xs) = {y. \<exists>x \<in> set xs. f x = Some y}"
  by (induction xs) (auto simp: List.map_filter_simps split: option.splits)

lemma normalStep_assigned:
  "normalStep lc st ann =
     (case assignedFile lc (imageFiles st) ann of
        None \<Rightarrow> st
      | Some file \<Rightarrow>
          (case imageAnnotationMap st file of
             None \<Rightarrow> st\<lparr>imageAnnotationMap := (imageAnnotationMap st)(file \<mapsto> [ann]),
                        annotatedImageFiles := annotatedImageFiles st @ [file]\<rparr>
           | Some anns \<Rightarrow> st\<lparr>imageAnnotationMap := (imageAnnotationMap st)(file \<mapsto> anns @ [ann])\<rparr>))"
  by (simp add: normalStep_def assignedFile_def split: option.splits)

lemma normalInv_step:
  assumes "normalInv lc files anns r"
  shows "normalInv lc files (anns @ [a]) (normalStep lc r a)"
proof (cases "assignedFile lc files a")
  case None
  with assms show ?thesis
    by (simp add: normalInv_def normalStep_assigned map_filter_snoc)
next
  case (Some f)
  show ?thesis
  proof (cases "f \<in> set (List.map_filter (assignedFile lc files) anns)")
    case True
    with assms Some show ?thesis
      by (auto simp: normalInv_def normalStep_assigned map_filter_snoc firstOccurrences_snoc)
  next
    case False
    then have "filter (\<lambda>a. assignedFile lc files a = Some f) anns = []"
      by (auto simp: set_map_filter filter_empty_conv)
    with False assms Some show ?thesis
      by (auto simp: normalInv_def normalStep_assigned map_filter_snoc firstOccurrences_snoc)
  qed
qed

lemma normalInv_normalPath: "normalInv lc files anns (normalPath lc anns files)"
  unfolding normalPath_def
proof (induction anns rule: rev_induct)
  case Nil
  show ?case by (simp add: normalInv_def initialReconciliation_def List.map_filter_def)
next
  case (snoc a anns)
  then show ?case by (simp add: normalInv_step)
qed


lemma sample_normalPath:
  "imageAnnotationMap (normalPath asciiLower sampleAnnotations sampleFiles) ''b.jpg'' =
     Some [mkAnnotation ''1'' ''B.JPG'', mkAnnotation ''4'' ''b.jpg'']"
  "imageAnnotationMap (normalPath asciiLower sampleAnnotations sampleFiles) ''a.jpg'' =
     Some [mkAnnotation ''3'' ''a.jpg'']"
  "imageAnnotationMap (normalPath asciiLower sampleAnnotations sampleFiles) ''c.png'' = None"
  "annotatedImageFiles (normalPath asciiLower sampleAnnotations sampleFiles) = [''b.jpg'', ''a.jpg'']"
  by (simp_all add: normalPath_def normalStep_def matchingImageFile_def matchesImageFile_def
        toLowerCase_def asciiLower_def toLowerChar_def initialReconciliation_def mkAnnotation_def
        sampleFiles_def sampleAnnotations_def)

text \<open>
  C2. On the normal path an annotation is filed under an image file only if its imageId
  equals the file name exactly or after lower-casing both (whatever the case mapping of
  \<^verbatim>\<open>toLowerCase\<close>), and the file is in the listing;
  an annotation that no file matches is in no entry, and the path yields an empty list of
  annotated files only if no annotation at all is matched; the annotated files are the
  matched files in the order in which the annotations first reach them, and each entry holds
  the annotations of its file in their original order.
\<close>

theorem normal_path_exact_match:
  "(imageAnnotationMap (normalPath lc annotations files) file = Some anns \<and> ann \<in> set anns \<longrightarrow>
      ann \<in> set annotations \<and> file \<in> set files \<and>
      (imageId ann = file \<or> toLowerCase lc (imageId ann) = toLowerCase lc file)) \<and>
   ((\<forall>f \<in> set files. imageId ann \<noteq> f \<and> toLowerCase lc (imageId ann) \<noteq> toLowerCase lc f) \<longrightarrow>
      (\<forall>file anns. imageAnnotationMap (normalPath lc annotations files) file = Some anns \<longrightarrow>
         ann \<notin> set anns)) \<and>
   (annotatedImageFiles (normalPath lc annotations files) = [] \<longleftrightarrow>
      (\<forall>a \<in> set annotations. assignedFile lc files a = None)) \<and>
   annotatedImageFiles (normalPath lc annotations files) =
     firstOccurrences (List.map_filter (assignedFile lc files) annotations) \<and>
   (\<forall>file. imageAnnotationMap (normalPath lc annotations files) file =
      (if file \<in> set (annotatedImageFiles (normalPath lc annotations files))
       then Some (filter (\<lambda>a. assignedFile lc files a = Some file) annotations)
       else None)) \<and>
   imageFiles (normalPath lc annotations files) = files"
proof -
  let ?r = "normalPath lc annotations files"
  have inv: "normalInv lc files annotations ?r" by (rule normalInv_normalPath)
  then have files: "imageFiles ?r = files"
    and order: "annotatedImageFiles ?r =
                  firstOccurrences (List.map_filter (assignedFile lc files) annotations)"
    and entries: "\<And>file. imageAnnotationMap ?r file =
        (if file \<in> set (List.map_filter (assignedFile lc files) annotations)
         then Some (filter (\<lambda>a. assignedFile lc files a = Some file) annotations)
         else None)"
    by (simp_all add: normalInv_def)
  have assigned: "assignedFile lc files a = Some f \<Longrightarrow>
      f \<in> set files \<and> (imageId a = f \<or> toLowerCase lc (imageId a) = toLowerCase lc f)" for a f
    using matchingImageFile_Some[of lc files "imageId a" f]
    by (auto simp: assignedFile_def split: option.splits if_splits)
  have unmatched: "assignedFile lc files a = None"
    if "\<forall>f \<in> set files. imageId a \<noteq> f \<and> toLowerCase lc (imageId a) \<noteq> toLowerCase lc f" for a
    using that matchingImageFile_None[of lc files "imageId a"] by (simp add: assignedFile_def)
  have member: "a \<in> set annotations \<and> assignedFile lc files a = Some f"
    if "imageAnnotationMap ?r f = Some anns" "a \<in> set anns" for a f anns
    using that entries[of f] by (auto split: if_splits)
  have c1: "imageAnnotationMap ?r file = Some anns \<and> ann \<in> set anns \<longrightarrow>
      ann \<in> set annotations \<and> file \<in> set files \<and>
      (imageId ann = file \<or> toLowerCase lc (imageId ann) = toLowerCase lc file)"
    using member assigned by blast
  have c2: "(\<forall>f \<in> set files. imageId ann \<noteq> f \<and> toLowerCase lc (imageId ann) \<noteq> toLowerCase lc f) \<longrightarrow>
      (\<forall>file anns. imageAnnotationMap ?r file = Some anns \<longrightarrow> ann \<notin> set anns)"
    using member unmatched by fastforce
  have c3: "annotatedImageFiles ?r = [] \<longleftrightarrow> (\<forall>a \<in> set annotations. assignedFile lc files a = None)"
  proof -
    have "annotatedImageFiles ?r = [] \<longleftrightarrow> set (List.map_filter (assignedFile lc files) annotations) = {}"
      unfolding order by (metis set_empty set_firstOccurrences)
    also have "\<dots> \<longleftrightarrow> (\<forall>a \<in> set annotations. assignedFile lc files a = None)"
      unfolding set_map_filter by (simp add: set_eq_iff) (metis not_Some_eq)
    finally show ?thesis .
  qed
  have c5: "\<forall>file. imageAnnotationMap ?r file =
      (if file \<in> set (annotatedImageFiles ?r)
       then Some (filter (\<lambda>a. assignedFile lc files a = Some file) annotations)
       else None)"
    using entries by (simp add: order set_firstOccurrences)
  from c1 c2 c3 order c5 files show ?thesis by blast
qed


theorem normal_path_exact_match_witness:
  "imageAnnotationMap (normalPath asciiLower sampleAnnotations sampleFiles) ''b.jpg'' =
     Some [mkAnnotation ''1'' ''B.JPG'', mkAnnotation ''4'' ''b.jpg''] \<and>
   imageId (mkAnnotation ''1'' ''B.JPG'') \<noteq> ''b.jpg'' \<and>
   toLowerCase asciiLower (imageId (mkAnnotation ''1'' ''B.JPG'')) = toLowerCase asciiLower ''b.jpg'' \<and>
   list_all (\<lambda>f. imageId (mkAnnotation ''2'' ''zzz.jpg'') \<noteq> f \<and>
                 toLowerCase asciiLower (imageId (mkAnnotation ''2'' ''zzz.jpg'')) \<noteq> toLowerCase asciiLower f)
     sampleFiles \<and>
   mkAnnotation ''2'' ''zzz.jpg'' \<notin> set [mkAnnotation ''1'' ''B.JPG'', mkAnnotation ''4'' ''b.jpg''] \<and>
   mkAnnotation ''2'' ''zzz.jpg'' \<in> set sampleAnnotations \<and>
   annotatedImageFiles (normalPath asciiLower sampleAnnotations sampleFiles) = [''b.jpg'', ''a.jpg''] \<and>
   imageAnnotationMap (normalPath asciiLower sampleAnnotations sampleFiles) ''c.png'' = None"
proof -
  have none: "\<forall>f \<in> set sampleFiles.
      imageId (mkAnnotation ''2'' ''zzz.jpg'') \<noteq> f \<and>
      toLowerCase asciiLower (imageId (mkAnnotation ''2'' ''zzz.jpg'')) \<noteq> toLowerCase asciiLower f"
    by (simp add: sampleFiles_def mkAnnotation_def toLowerCase_def asciiLower_def toLowerChar_def)
  from normal_path_exact_match
         [of asciiLower sampleAnnotations sampleFiles "''b.jpg''"
             "[mkAnnotation ''1'' ''B.JPG'', mkAnnotation ''4'' ''b.jpg'']"
             "mkAnnotation ''1'' ''B.JPG''"]
       normal_path_exact_match
         [of asciiLower sampleAnnotations sampleFiles "''b.jpg''"
             "[mkAnnotation ''1'' ''B.JPG'', mkAnnotation ''4'' ''b.jpg'']"
             "mkAnnotation ''2'' ''zzz.jpg''"]
       none sample_normalPath
  show ?thesis
    by (simp add: list_all_iff mkAnnotation_def sampleAnnotations_def)
qed

section \<open>The fallback path\<close>

lemma slice_chunk:
  "slice xs (i * p) (min (i * p + p) (length xs)) = take p (drop (i * p) xs)"
  by (simp add: slice_def min_def)

lemma expandStep_chunk:
  assumes "length sortedFiles = numFiles"
  shows "expandStep annotations sortedFiles st i =
     (if specChunk annotations numFiles i \<noteq> []
      then st\<lparr>imageAnnotationMap := (imageAnnotationMap st)
                  (sortedFiles ! i \<mapsto> specChunk annotations numFiles i),
              annotatedImageFiles := annotatedImageFiles st @ [sortedFiles ! i]\<rparr>
      else st)"
  using assms
  by (simp add: expandStep_def specChunk_def annotationsPerImage_def slice_chunk Let_def)

lemma expand_loop:
  "foldl (expandStep annotations (sort files)) (initialReconciliation (sort files)) [0 ..< j] =
     \<lparr>imageAnnotationMap =
        map_of (rev (map (\<lambda>i. (sort files ! i, specChunk annotations (length files) i))
          (filter (\<lambda>i. specChunk annotations (length files) i \<noteq> []) [0 ..< j]))),
      annotatedImageFiles =
        map (\<lambda>i. sort files ! i)
          (filter (\<lambda>i. specChunk annotations (length files) i \<noteq> []) [0 ..< j]),
      imageFiles = sort files\<rparr>"
proof (induction j)
  case 0
  show ?case by (simp add: initialReconciliation_def)
next
  case (Suc j)
  have len: "length (sort files) = length files" by simp
  have "foldl (expandStep annotations (sort files)) (initialReconciliation (sort files)) [0 ..< Suc j] =
          expandStep annotations (sort files)
            (foldl (expandStep annotations (sort files)) (initialReconciliation (sort files)) [0 ..< j]) j"
    by simp
  also note Suc
  finally show ?case
    by (simp add: expandStep_chunk[OF len])
qed

lemma expandPath_assignments:
  "expandPath annotations files =
     \<lparr>imageAnnotationMap = map_of (rev (expandAssignments annotations files)),
      annotatedImageFiles = map fst (expandAssignments annotations files),
      imageFiles = sort files\<rparr>"
  by (simp add: expandPath_def expand_loop expandAssignments_def comp_def Let_def)

lemma concat_chunks: "concat (map (\<lambda>i. take c (drop (i * c) xs)) [0 ..< k]) = take (k * c) xs"
proof (induction k)
  case 0
  show ?case by simp
next
  case (Suc k)
  have "Suc k * c = k * c + c" by simp
  then have "take (Suc k * c) xs = take (k * c) xs @ take c (drop (k * c) xs)"
    by (simp only: take_add)
  with Suc show ?case by simp
qed

lemma chunks_cover:
  assumes "0 < k"
  shows "n \<le> k * nat \<lceil>(of_nat n :: rat) / of_nat k\<rceil>"
proof -
  have "(of_nat n :: rat) = of_nat k * (of_nat n / of_nat k)"
    using assms by simp
  also have "\<dots> \<le> of_nat k * of_int \<lceil>(of_nat n :: rat) / of_nat k\<rceil>"
    by (intro mult_left_mono le_of_int_ceiling) simp
  also have "\<dots> = of_nat (k * nat \<lceil>(of_nat n :: rat) / of_nat k\<rceil>)"
  proof -
    have "0 \<le> (of_nat n :: rat) / of_nat k" by simp
    then have "- 1 < (of_nat n :: rat) / of_nat k" by linarith
    then have "0 \<le> \<lceil>(of_nat n :: rat) / of_nat k\<rceil>" by simp
    then show ?thesis by simp
  qed
  finally show ?thesis by (simp only: of_nat_le_iff)
qed

lemma chunks_partition:
  assumes "files \<noteq> []"
  shows "concat (map (specChunk annotations (length files))
           [0 ..< min (length annotations) (length files)]) = annotations"
proof (cases "annotations = []")
  case True
  then show ?thesis by simp
next
  case False
  let ?k = "min (length annotations) (length files)"
  from False assms have k: "0 < ?k" by simp
  have "concat (map (specChunk annotations (length files)) [0 ..< ?k]) =
          take (?k * nat \<lceil>(of_nat (length annotations) :: rat) / of_nat ?k\<rceil>) annotations"
    unfolding specChunk_def Let_def by (rule concat_chunks)
  also have "\<dots> = annotations"
    using chunks_cover[OF k, of "length annotations"] by simp
  finally show ?thesis .
qed

lemma expandAssignments_keys:
  "map fst (expandAssignments annotations files) =
     map (\<lambda>i. sort files ! i)
       (filter (\<lambda>i. specChunk annotations (length files) i \<noteq> [])
          [0 ..< min (length annotations) (length files)])"
  by (simp add: expandAssignments_def comp_def)

lemma expandAssignments_distinct:
  assumes "distinct files"
  shows "distinct (map fst (expandAssignments annotations files))"
proof -
  have "inj_on (\<lambda>i. sort files ! i) {0 ..< length files}"
    using assms by (auto simp: inj_on_def nth_eq_iff_index_eq)
  then have "inj_on (\<lambda>i. sort files ! i)
      (set (filter (\<lambda>i. specChunk annotations (length files) i \<noteq> [])
         [0 ..< min (length annotations) (length files)]))"
    by (rule inj_on_subset) auto
  then show ?thesis
    unfolding expandAssignments_keys by (simp add: distinct_map)
qed

lemma expandAssignments_entry:
  assumes "distinct files" and "i < min (length annotations) (length files)"
  shows "map_of (rev (expandAssignments annotations files)) (sort files ! i) =
           (if specChunk annotations (length files) i = [] then None
            else Some (specChunk annotations (length files) i))"
proof -
  let ?L = "expandAssignments annotations files"
  have d: "distinct (map fst ?L)" using assms(1) by (rule expandAssignments_distinct)
  then have dr: "distinct (map fst (rev ?L))" by (simp add: rev_map[symmetric])
  show ?thesis
  proof (cases "specChunk annotations (length files) i = []")
    case False
    with assms(2) have "(sort files ! i, specChunk annotations (length files) i) \<in> set (rev ?L)"
      by (auto simp: expandAssignments_def)
    with dr False show ?thesis by simp
  next
    case True
    have "sort files ! i \<notin> fst ` set (rev ?L)"
    proof
      assume "sort files ! i \<in> fst ` set (rev ?L)"
      then obtain j where j: "j < min (length annotations) (length files)"
          "specChunk annotations (length files) j \<noteq> []" "sort files ! j = sort files ! i"
        by (auto simp: expandAssignments_def)
      with assms have "j = i" by (simp add: nth_eq_iff_index_eq)
      with j True show False by simp
    qed
    with True show ?thesis by (simp add: map_of_eq_None_iff)
  qed
qed

lemma specChunk_map: "specChunk (map h xs) numFiles i = map h (specChunk xs numFiles i)"
  by (simp add: specChunk_def take_map drop_map Let_def)

lemma expandAssignments_map:
  "expandAssignments (map h annotations) files =
     map (\<lambda>(f, anns). (f, map h anns)) (expandAssignments annotations files)"
  by (simp add: expandAssignments_def specChunk_map comp_def)

text \<open>
  C3. On the fallback path the image files are sorted; the annotation list is cut into
  contiguous chunks of \<open>ceil(total / min(total, numFiles))\<close> annotations, which together
  are the whole list; the \<open>i\<close>-th sorted file receives the \<open>i\<close>-th chunk; exactly the files
  with a non-empty chunk are annotated files and keys of the map; and replacing the imageIds
  of the annotations by any others leaves the assignment of positions to files unchanged.
\<close>

theorem expand_path_chunks:
  "imageFiles (expandPath annotations files) = sort files \<and>
   annotatedImageFiles (expandPath annotations files) =
     map (\<lambda>i. sort files ! i)
       (filter (\<lambda>i. specChunk annotations (length files) i \<noteq> [])
          [0 ..< min (length annotations) (length files)]) \<and>
   (distinct files \<and> i < min (length annotations) (length files) \<longrightarrow>
      imageAnnotationMap (expandPath annotations files) (sort files ! i) =
        (if specChunk annotations (length files) i = [] then None
         else Some (specChunk annotations (length files) i))) \<and>
   (file \<notin> set (annotatedImageFiles (expandPath annotations files)) \<longrightarrow>
      imageAnnotationMap (expandPath annotations files) file = None) \<and>
   (files \<noteq> [] \<longrightarrow>
      concat (map (specChunk annotations (length files))
        [0 ..< min (length annotations) (length files)]) = annotations) \<and>
   annotatedImageFiles (expandPath (map (\<lambda>a. a\<lparr>imageId := newId a\<rparr>) annotations) files) =
     annotatedImageFiles (expandPath annotations files) \<and>
   imageAnnotationMap (expandPath (map (\<lambda>a. a\<lparr>imageId := newId a\<rparr>) annotations) files) file =
     map_option (map (\<lambda>a. a\<lparr>imageId := newId a\<rparr>))
       (imageAnnotationMap (expandPath annotations files) file)"
proof -
  let ?L = "expandAssignments annotations files"
  let ?h = "\<lambda>a. a\<lparr>imageId := newId a\<rparr>"
  have c4: "file \<notin> set (annotatedImageFiles (expandPath annotations files)) \<longrightarrow>
      imageAnnotationMap (expandPath annotations files) file = None"
    by (simp add: expandPath_assignments map_of_eq_None_iff)
  have c6: "annotatedImageFiles (expandPath (map ?h annotations) files) =
      annotatedImageFiles (expandPath annotations files)"
    by (simp add: expandPath_assignments expandAssignments_map comp_def case_prod_beta)
  have "rev (map (\<lambda>(f, anns). (f, map ?h anns)) ?L) = map (\<lambda>(f, anns). (f, map ?h anns)) (rev ?L)"
    by (simp add: rev_map)
  then have c7: "imageAnnotationMap (expandPath (map ?h annotations) files) file =
      map_option (map ?h) (imageAnnotationMap (expandPath annotations files) file)"
    by (simp add: expandPath_assignments expandAssignments_map map_of_map)
  show ?thesis
    using c4 c6 c7 expandAssignments_entry[of files i annotations]
      chunks_partition[of files annotations]
    by (simp add: expandPath_assignments expandAssignments_keys)
qed

lemma sample_expandPath:
  "imageFiles (expandPath fiveAnnotations fourFiles) = [''a.jpg'', ''b.jpg'', ''c.jpg'', ''d.jpg'']"
  "annotatedImageFiles (expandPath fiveAnnotations fourFiles) = [''a.jpg'', ''b.jpg'', ''c.jpg'']"
  "imageAnnotationMap (expandPath fiveAnnotations fourFiles) ''d.jpg'' = None"
  "''d.jpg'' \<notin> set (annotatedImageFiles (expandPath fiveAnnotations fourFiles))"
  "concat (map (specChunk fiveAnnotations (length fourFiles))
     [0 ..< min (length fiveAnnotations) (length fourFiles)]) = fiveAnnotations"
  "annotatedImageFiles (expandPath (map (\<lambda>a. a\<lparr>imageId := ''x''\<rparr>) fiveAnnotations) fourFiles) =
     [''a.jpg'', ''b.jpg'', ''c.jpg'']"
  by code_simp+

lemma sample_chunks:
  "specChunk fiveAnnotations (length fourFiles) 2 = [mkAnnotation ''5'' ''only.jpg'']"
  "sort fourFiles ! 2 = ''c.jpg''"
  "distinct fourFiles"
  "2 < min (length fiveAnnotations) (length fourFiles)"
  "fourFiles \<noteq> []"
  by code_simp+

theorem expand_path_chunks_witness:
  "distinct fourFiles \<and> 2 < min (length fiveAnnotations) (length fourFiles) \<and> fourFiles \<noteq> [] \<and>
   imageFiles (expandPath fiveAnnotations fourFiles) = [''a.jpg'', ''b.jpg'', ''c.jpg'', ''d.jpg''] \<and>
   annotatedImageFiles (expandPath fiveAnnotations fourFiles) = [''a.jpg'', ''b.jpg'', ''c.jpg''] \<and>
   imageAnnotationMap (expandPath fiveAnnotations fourFiles) ''c.jpg'' =
     Some [mkAnnotation ''5'' ''only.jpg''] \<and>
   ''d.jpg'' \<notin> set (annotatedImageFiles (expandPath fiveAnnotations fourFiles)) \<and>
   imageAnnotationMap (expandPath fiveAnnotations fourFiles) ''d.jpg'' = None \<and>
   concat (map (specChunk fiveAnnotations (length fourFiles))
     [0 ..< min (length fiveAnnotations) (length fourFiles)]) = fiveAnnotations \<and>
   annotatedImageFiles (expandPath (map (\<lambda>a. a\<lparr>imageId := ''x''\<rparr>) fiveAnnotations) fourFiles) =
     [''a.jpg'', ''b.jpg'', ''c.jpg'']"
proof -
  note entry = expand_path_chunks
    [of fiveAnnotations fourFiles 2 "''d.jpg''" "\<lambda>a. ''x''",
     THEN conjunct2, THEN conjunct2, THEN conjunct1, rule_format]
  have "imageAnnotationMap (expandPath fiveAnnotations fourFiles) (sort fourFiles ! 2) =
          (if specChunk fiveAnnotations (length fourFiles) 2 = [] then None
           else Some (specChunk fiveAnnotations (length fourFiles) 2))"
    by (rule entry) (intro conjI sample_chunks)
  then have third: "imageAnnotationMap (expandPath fiveAnnotations fourFiles) ''c.jpg'' =
      Some [mkAnnotation ''5'' ''only.jpg'']"
    by (simp only: sample_chunks list.simps if_False)
  show ?thesis
    by (intro conjI sample_chunks sample_expandPath third)
qed

section \<open>Rounding to binary64\<close>

text \<open>
  \<open>logSteps\<close> finds the exponent of the leading bit whenever the fuel covers it.
\<close>

lemma pow2_powi: "pow2 k = 2 powi k"
  by (simp add: pow2_def power_int_def power_inverse inverse_eq_divide field_simps)

lemma pow2_pos: "0 < pow2 k"
  by (simp add: pow2_powi)

lemma pow2_Suc: "pow2 (k + 1) = 2 * pow2 k"
  by (simp add: pow2_powi power_int_add)

lemma pow2_pred: "pow2 (k - 1) = pow2 k / 2"
  using pow2_Suc[of "k - 1"] by simp

lemma pow2_mono: "j \<le> k \<Longrightarrow> pow2 j \<le> pow2 k"
  by (simp add: pow2_powi power_int_increasing)

lemma pow2_strict_mono: "j < k \<Longrightarrow> pow2 j < pow2 k"
  by (simp add: pow2_powi power_int_strict_increasing)

lemma pow2_0: "pow2 0 = 1"
  by (simp add: pow2_def)

lemma logSteps_floor_log:
  "pow2 k \<le> a \<Longrightarrow> a < pow2 (k + 1) \<Longrightarrow> nat \<bar>k\<bar> \<le> fuel \<Longrightarrow> logSteps 2 fuel a e = e + k"
proof (induction fuel arbitrary: a e k)
  case 0
  then show ?case by simp
next
  case (Suc fuel)
  show ?case
  proof (cases "2 \<le> a")
    case True
    have "0 < k"
    proof (rule ccontr)
      assume "\<not> 0 < k"
      then have "pow2 (k + 1) \<le> pow2 1" by (intro pow2_mono) simp
      with Suc.prems(2) True show False by (simp add: pow2_def)
    qed
    from Suc.prems have "pow2 (k - 1) \<le> a / 2" "a / 2 < pow2 (k - 1 + 1)"
      by (simp_all add: pow2_pred pow2_Suc)
    moreover from \<open>0 < k\<close> Suc.prems(3) have "nat \<bar>k - 1\<bar> \<le> fuel" by simp
    ultimately have "logSteps 2 fuel (a / 2) (e + 1) = e + 1 + (k - 1)" by (rule Suc.IH)
    with True show ?thesis by simp
  next
    case False
    show ?thesis
    proof (cases "a < 1")
      case True
      have "k < 0"
      proof (rule ccontr)
        assume "\<not> k < 0"
        then have "pow2 0 \<le> pow2 k" by (intro pow2_mono) simp
        with Suc.prems(1) True show False by (simp add: pow2_0)
      qed
      from Suc.prems have "pow2 (k + 1) \<le> a * 2" "a * 2 < pow2 (k + 1 + 1)"
        unfolding pow2_Suc by simp_all
      moreover from \<open>k < 0\<close> Suc.prems(3) have "nat \<bar>k + 1\<bar> \<le> fuel" by simp
      ultimately have "logSteps 2 fuel (a * 2) (e - 1) = e - 1 + (k + 1)" by (rule Suc.IH)
      with True False show ?thesis by simp
    next
      case notless: False
      have "k = 0"
      proof (rule ccontr)
        assume "k \<noteq> 0"
        then consider "k \<le> - 1" | "1 \<le> k" by linarith
        then show False
        proof cases
          case 1
          then have "pow2 (k + 1) \<le> pow2 0" by (intro pow2_mono) simp
          with Suc.prems(2) notless show False by (simp add: pow2_0)
        next
          case 2
          then have "pow2 1 \<le> pow2 k" by (intro pow2_mono)
          with Suc.prems(1) False show False by (simp add: pow2_def)
        qed
      qed
      with False notless show ?thesis by simp
    qed
  qed
qed

text \<open>
  Every number \<open>m * 2^j\<close> with a significand \<open>m\<close> of at most 53 bits, \<open>j\<close> not below the
  least exponent \<open>-1074\<close> and a magnitude below \<open>2^1024\<close> is a binary64 value: rounding leaves
  it as it is. In particular the integers below \<open>2^53\<close> and their halves are exact.
\<close>

lemma roundHalfEven_of_int: "roundHalfEven (of_int n) = n"
  by (simp add: roundHalfEven_def)

lemma pow2_add: "pow2 (j + k) = pow2 j * pow2 k"
  by (simp add: pow2_powi power_int_add)

lemma pow2_nat: "0 \<le> k \<Longrightarrow> pow2 k = of_int (2 ^ nat k)"
  by (simp add: pow2_def)

lemma pow2_less_cancel: "pow2 j < pow2 k \<Longrightarrow> j < k"
  using pow2_mono[of k j] by (cases "j < k") auto

lemma quantize_exact:
  assumes "0 < m" and "m < 2 ^ 53" and "- 1074 \<le> j" and "of_int m * pow2 j < pow2 1024"
  shows "quantize (of_int m * pow2 j)
           (pow2 (max (logSteps 2 2200 (of_int m * pow2 j) 0) (- 1022) - 52)) =
         of_int m * pow2 j"
proof -
  let ?a = "of_int m * pow2 j :: rat"
  define k where "k = bitlen m - 1"
  from assms(1) have k0: "0 \<le> k"
    using bitlen_ge_iff_power[of 1 m] by (simp add: k_def)
  have b: "2 ^ nat k \<le> m" "m < 2 ^ nat (k + 1)"
    using bitlen_bounds[OF assms(1)] by (simp_all add: k_def)
  have k52: "k \<le> 52"
  proof (rule ccontr)
    assume "\<not> k \<le> 52"
    then have "(2::int) ^ 53 \<le> 2 ^ nat k" by (intro power_increasing) simp_all
    with b(1) assms(2) show False by simp
  qed
  have lo: "pow2 (k + j) \<le> ?a"
  proof -
    from b(1) have "(of_int (2 ^ nat k) :: rat) \<le> of_int m" by (simp only: of_int_le_iff)
    with k0 have "pow2 k \<le> of_int m" by (simp add: pow2_nat)
    then have "pow2 k * pow2 j \<le> of_int m * pow2 j"
      using pow2_pos[of j] by (simp add: mult_right_mono)
    then show ?thesis by (simp add: pow2_add)
  qed
  have hi: "?a < pow2 (k + j + 1)"
  proof -
    from b(2) have "(of_int m :: rat) < of_int (2 ^ nat (k + 1))" by (simp only: of_int_less_iff)
    with k0 have "of_int m < pow2 (k + 1)" by (simp add: pow2_nat)
    then have "of_int m * pow2 j < pow2 (k + 1) * pow2 j"
      using pow2_pos[of j] by (simp add: mult_strict_right_mono)
    moreover have "pow2 (k + 1) * pow2 j = pow2 (k + j + 1)"
      unfolding pow2_add[symmetric] by (rule arg_cong[where f = pow2]) simp
    ultimately show ?thesis by simp
  qed
  from lo assms(4) have "pow2 (k + j) < pow2 1024" by simp
  then have top: "k + j < 1024" by (rule pow2_less_cancel)
  with k0 assms(3) have "nat \<bar>k + j\<bar> \<le> 2200" by simp
  with lo hi have e: "logSteps 2 2200 ?a 0 = k + j"
    using logSteps_floor_log[of "k + j" ?a 2200 0] by simp
  define d where "d = j - max (k + j) (- 1022) + 52"
  from k52 assms(3) have d0: "0 \<le> d" by (simp add: d_def max_def)
  have q: "pow2 (max (k + j) (- 1022) - 52) * pow2 d = pow2 j"
    unfolding pow2_add[symmetric] by (simp add: d_def)
  let ?q = "pow2 (max (k + j) (- 1022) - 52)"
  have qpos: "0 < ?q" by (rule pow2_pos)
  have "?a / ?q = of_int m * pow2 d"
    using q qpos by (simp add: field_simps)
  also have "\<dots> = of_int (m * 2 ^ nat d)" using d0 by (simp add: pow2_nat)
  finally have "roundHalfEven (?a / ?q) = m * 2 ^ nat d"
    by (simp only: roundHalfEven_of_int)
  then have "quantize ?a ?q = of_int (m * 2 ^ nat d) * ?q" by (simp add: quantize_def)
  also have "\<dots> = of_int m * (pow2 d * ?q)" using d0 by (simp add: pow2_nat)
  also have "\<dots> = ?a" using q by (simp add: mult.commute)
  finally show ?thesis by (simp add: e)
qed

lemma round64_representable:
  assumes "\<bar>m\<bar> < 2 ^ 53" and "- 1074 \<le> j" and "\<bar>of_int m * pow2 j\<bar> < pow2 1024"
  shows "round64 (of_int m * pow2 j) = Finite (of_int m * pow2 j)"
proof (cases "m = 0")
  case True
  then show ?thesis by (simp add: round64_def)
next
  case False
  let ?r = "of_int m * pow2 j :: rat"
  have abs: "\<bar>?r\<bar> = of_int \<bar>m\<bar> * pow2 j"
    using pow2_pos[of j] by (simp add: abs_mult)
  from False have pos: "0 < \<bar>m\<bar>" by simp
  from assms(3) have "of_int \<bar>m\<bar> * pow2 j < pow2 1024" by (simp only: abs)
  from quantize_exact[OF pos assms(1) assms(2) this]
  have qz: "quantize \<bar>?r\<bar> (pow2 (max (logSteps 2 2200 \<bar>?r\<bar> 0) (- 1022) - 52)) = \<bar>?r\<bar>"
    by (simp only: abs)
  from False have nz: "?r \<noteq> 0" using pow2_pos[of j] by simp
  from assms(3) have "\<not> pow2 1024 \<le> \<bar>?r\<bar>" by simp
  then have "withSign ?r \<bar>?r\<bar> = Finite ?r"
    by (simp add: withSign_def)
  with nz qz show ?thesis by (simp add: round64_def)
qed

lemma round64_of_int:
  assumes "\<bar>m\<bar> < 2 ^ 53"
  shows "round64 (of_int m) = Finite (of_int m)"
proof -
  have "\<bar>of_int m :: rat\<bar> < of_int (2 ^ 53)"
    using assms by (simp only: of_int_abs[symmetric] of_int_less_iff)
  also have "(of_int (2 ^ 53) :: rat) < pow2 1024"
    by (simp add: pow2_def)
  finally have "\<bar>of_int m * pow2 0\<bar> < pow2 1024" by (simp add: pow2_0)
  from round64_representable[OF assms _ this] show ?thesis by (simp add: pow2_0)
qed

lemma round64_half_int:
  assumes "\<bar>m\<bar> < 2 ^ 53"
  shows "round64 (of_int m / 2) = Finite (of_int m / 2)"
proof -
  have p: "pow2 (- 1) = 1 / 2" by (simp add: pow2_def)
  have "\<bar>of_int m :: rat\<bar> < of_int (2 ^ 53)"
    using assms by (simp only: of_int_abs[symmetric] of_int_less_iff)
  also have "(of_int (2 ^ 53) :: rat) < pow2 1024"
    by (simp add: pow2_def)
  finally have "\<bar>of_int m * pow2 (- 1)\<bar> < pow2 1024" by (simp add: p)
  from round64_representable[OF assms _ this] show ?thesis by (simp add: p)
qed

text \<open>
  In the normal range the rounded value is within half a unit of the last place of the
  number: with \<open>2^k \<le> |r| < 2^(k + 1)\<close> the error is at most \<open>2^(k - 53)\<close>.
\<close>

lemma roundHalfEven_error: "\<bar>of_int (roundHalfEven t) - t\<bar> \<le> 1 / 2"
proof -
  have "of_int \<lfloor>t\<rfloor> \<le> t" "t < of_int \<lfloor>t\<rfloor> + 1" by linarith+
  then show ?thesis by (auto simp: roundHalfEven_def Let_def abs_le_iff)
qed

lemma quantize_error:
  assumes "0 < q"
  shows "\<bar>quantize a q - a\<bar> \<le> q / 2"
proof -
  have "quantize a q - a = (of_int (roundHalfEven (a / q)) - a / q) * q"
    using assms by (simp add: quantize_def field_simps)
  then have "\<bar>quantize a q - a\<bar> = \<bar>of_int (roundHalfEven (a / q)) - a / q\<bar> * q"
    using assms by (simp add: abs_mult)
  also have "\<dots> \<le> (1 / 2) * q"
    using roundHalfEven_error[of "a / q"] assms by (intro mult_right_mono) simp_all
  finally show ?thesis by simp
qed

lemma round64_half_ulp:
  assumes "round64 r = Finite v"
    and "pow2 k \<le> \<bar>r\<bar>" and "\<bar>r\<bar> < pow2 (k + 1)" and "- 1022 \<le> k" and "k < 1024"
  shows "\<bar>v - r\<bar> \<le> pow2 (k - 53)"
proof -
  from assms(4,5) have "nat \<bar>k\<bar> \<le> 2200" by simp
  with assms(2,3) have e: "logSteps 2 2200 \<bar>r\<bar> 0 = k"
    using logSteps_floor_log[of k "\<bar>r\<bar>" 2200 0] by simp
  from assms(2) pow2_pos[of k] have nz: "r \<noteq> 0" by auto
  let ?v = "quantize \<bar>r\<bar> (pow2 (k - 52))"
  from assms(4) have m: "max k (- 1022) = k" by simp
  from assms(1) nz have w: "withSign r ?v = Finite v"
    by (simp add: round64_def e m)
  then have v: "v = (if r < 0 then - ?v else ?v)"
    by (simp add: withSign_def split: if_splits)
  have "\<bar>?v - \<bar>r\<bar>\<bar> \<le> pow2 (k - 52) / 2"
    by (rule quantize_error) (rule pow2_pos)
  also have "pow2 (k - 52) / 2 = pow2 (k - 53)"
    using pow2_pred[of "k - 52"] by simp
  finally have "\<bar>?v - \<bar>r\<bar>\<bar> \<le> pow2 (k - 53)" .
  then show ?thesis unfolding v by (cases "r < 0") (simp_all add: abs_le_iff)
qed

section \<open>Label lines\<close>

lemma decimal_numeral:
  "decimal (numeral m) =
     (if (numeral m :: nat) < 10 then [digitChar (numeral m)]
      else decimal (numeral m div 10) @ [digitChar (numeral m mod 10)])"
  by (rule decimal.simps)

lemma decimal_0: "decimal 0 = ''0''"
  by (simp add: decimal.simps[of 0] digitChar_def)

lemma decimal_1: "decimal 1 = ''1''" "decimal (Suc 0) = ''1''"
  by (simp_all add: decimal.simps[of "Suc 0"] digitChar_def)

lemma floor_rat_numeral: "\<lfloor>(numeral a / numeral b :: rat)\<rfloor> = numeral a div numeral b"
  using floor_divide_of_int_eq[of "numeral a" "numeral b", where ?'a = rat] by simp

lemma floor_rat_one_numeral: "\<lfloor>(1 / numeral b :: rat)\<rfloor> = 1 div numeral b"
  using floor_divide_of_int_eq[of 1 "numeral b", where ?'a = rat] by simp

lemmas decimal_eval = decimal_numeral decimal_0 decimal_1 digitChar_def floor_rat_numeral

lemma logSteps_numeral:
  "logSteps b (numeral k) a e =
     (if b \<le> a then logSteps b (pred_numeral k) (a / b) (e + 1)
      else if a < 1 then logSteps b (pred_numeral k) (a * b) (e - 1)
      else e)"
  by (simp add: numeral_eq_Suc)

lemma shortestDigits_numeral:
  "shortestDigits x n k (numeral f) =
     (case digitsAt x n k of
        Some s \<Rightarrow> (s, k)
      | None \<Rightarrow> shortestDigits x n (Suc k) (pred_numeral f))"
  by (simp add: numeral_eq_Suc)

lemma replicate_numeral_Cons: "replicate (numeral k) x = x # replicate (pred_numeral k) x"
  by (simp add: numeral_eq_Suc)

lemmas round64_eval = round64_def withSign_def quantize_def pow2_def roundHalfEven_def
  logSteps_numeral floor_rat_numeral

lemmas digits_eval = numberDigits_def normalizeDigits_def shortestDigits_numeral digitsAt_def
  chooseDigits_def pow10_def floor_rat_one_numeral round64_eval

lemmas string_eval = numberToString_def formatNumber_def toFixed6_def Let_def
  decimal_numeral decimal_0 decimal_1 digitChar_def replicate_numeral_Cons

lemma round64_0: "round64 0 = Finite 0"
  by (simp add: round64_def)

text \<open>
  Some binary64 values: integers are exact, \<open>1/10\<close> is not, and neither is \<open>3/640\<close>, which
  lies below the decimal \<open>0.0046875\<close>.
\<close>

lemma round64_examples:
  "round64 100 = Finite 100"
  "round64 (1 / 10) = Finite (3602879701896397 / 36028797018963968)"
  "round64 (3 / 640) = Finite (5404319552844595 / 1152921504606846976)"
  "round64 (3 / 640) \<noteq> Finite (3 / 640)"
  "round64 (10 ^ 21) = Finite (10 ^ 21)"
  by (simp_all add: round64_eval)








text \<open>
  For a box with integer coordinates only the last division rounds: each coordinate is the
  binary64 value nearest to the exact quotient.
\<close>

lemma center_of_integer_box:
  assumes "\<bar>x\<bar> < 2 ^ 51" and "\<bar>w\<bar> < 2 ^ 51"
  shows "numDivide (numAdd (round64 (of_int x)) (numDivide (round64 (of_int w)) 2)) 640 =
         round64 ((of_int x + of_int w / 2) / 640)"
proof -
  from assms have x: "\<bar>x\<bar> < 2 ^ 53" and w: "\<bar>w\<bar> < 2 ^ 53" and s: "\<bar>2 * x + w\<bar> < 2 ^ 53"
    by simp_all
  have sum: "(of_int x :: rat) + of_int w / 2 = of_int (2 * x + w) / 2" by simp
  have "numAdd (round64 (of_int x)) (numDivide (round64 (of_int w)) 2) =
        round64 (of_int x + of_int w / 2)"
    by (simp add: round64_of_int[OF x] round64_of_int[OF w] round64_half_int[OF w])
  also have "\<dots> = Finite (of_int x + of_int w / 2)"
    unfolding sum by (rule round64_half_int[OF s])
  finally show ?thesis by simp
qed

lemma extent_of_integer_box:
  assumes "\<bar>w\<bar> < 2 ^ 53"
  shows "numDivide (round64 (of_int w)) 640 = round64 (of_int w / 640)"
  by (simp add: round64_of_int[OF assms])




text \<open>
  Where six decimals are not what is printed: a coordinate of \<open>10^21\<close> is written in
  exponent notation, an undefined one as \<^verbatim>\<open>NaN\<close>, and a label that names an inherited method
  of the mapping puts the text of that method in front of the coordinates.
\<close>

lemma label_line_other_forms:
  "toFixed6 (numDivide (numAdd (round64 (64 * 10 ^ 22)) (numDivide (round64 100) 2)) 640) = ''1e+21''"
  "toFixed6 (numAdd (round64 (10 ^ 400)) (numDivide (round64 (- (10 ^ 400))) 2)) = ''NaN''"
  "classIdToString (classIdOf Map.empty ''toString'') = ''function toString() { [native code] }''"
proof -
  show "toFixed6 (numDivide (numAdd (round64 (64 * 10 ^ 22)) (numDivide (round64 100) 2)) 640) = ''1e+21''"
    by (simp add: string_eval digits_eval)
  show "classIdToString (classIdOf Map.empty ''toString'') = ''function toString() { [native code] }''"
    by (simp add: classIdOf_def objectPrototypeKeys_def)
  have "round64 (10 ^ 400) = PosInfinity" "round64 (- (10 ^ 400)) = NegInfinity"
    by (simp_all add: round64_eval)
  then show "toFixed6 (numAdd (round64 (10 ^ 400)) (numDivide (round64 (- (10 ^ 400))) 2)) = ''NaN''"
    by (simp add: toFixed6_def numberToString_def)
qed




section \<open>The handler: answers before reconciliation\<close>

lemma dispatch_cases:
  assumes "fst (dispatch w userId datasetName trainingConfig timestamp names k n zipArchive) = r"
  shows "(\<exists>details. r = UploadDispatchError details) \<or> (\<exists>payload. r = Succeeded payload)"
  using assms by (auto simp: dispatch_def Let_def split: sum.splits)

lemma dispatch_trace:
  "snd (dispatch w userId datasetName trainingConfig timestamp names k n zipArchive) =
     [WorkerUploadDataset (userId @ ''/'' @ datasetName @ ''_'' @ decimal timestamp)]"
  by (simp add: dispatch_def Let_def split: sum.splits)

lemma exportDataset_not_NoAnnotations:
  "fst (exportDataset w userId datasetId datasetName trainingConfig timestamp annotations names ids
          datasetFiles) \<noteq> NoAnnotationsError"
  by (auto simp: exportDataset_def Let_def dest!: dispatch_cases)

lemma exportAnnotations_NoAnnotations:
  "fst (exportAnnotations w userId datasetId datasetName trainingConfig annotations) =
     NoAnnotationsError \<longleftrightarrow> annotations = []"
  using exportDataset_not_NoAnnotations
  by (auto simp: exportAnnotations_def Let_def split: option.splits)

lemma exportAnnotations_empty:
  "exportAnnotations w userId datasetId datasetName trainingConfig [] = (NoAnnotationsError, [])"
  by (simp add: exportAnnotations_def)

text \<open>
  C5. A request that passes validation and the two ownership checks, for a dataset without
  annotations, is answered with the no-annotations error right after the annotation query;
  and whenever the handler gives that answer, it has neither listed the dataset directory
  nor touched an image file.
\<close>

theorem empty_annotations_fail_before_file_io:
  "(validateTraining req = Some (projectId, datasetId, datasetName, trainingConfig) \<and>
    findProject w projectId (user_userId req) \<and>
    findDataset w datasetId (user_userId req) \<and>
    findAnnotations w datasetId = [] \<longrightarrow>
      startTraining w req =
        (NoAnnotationsError, [DbProjectFindFirst, DbDatasetFindFirst, DbAnnotationFindMany])) \<and>
   (fst (startTraining w req) = NoAnnotationsError \<longrightarrow>
      filter isFileIO (snd (startTraining w req)) = [])"
proof -
  have a: "validateTraining req = Some (projectId, datasetId, datasetName, trainingConfig) \<and>
    findProject w projectId (user_userId req) \<and>
    findDataset w datasetId (user_userId req) \<and>
    findAnnotations w datasetId = [] \<longrightarrow>
      startTraining w req =
        (NoAnnotationsError, [DbProjectFindFirst, DbDatasetFindFirst, DbAnnotationFindMany])"
    by (simp add: startTraining_def exportAnnotations_empty Let_def)
  have b: "fst (startTraining w req) = NoAnnotationsError \<longrightarrow>
      filter isFileIO (snd (startTraining w req)) = []"
    by (auto simp: startTraining_def Let_def exportAnnotations_NoAnnotations exportAnnotations_empty
             split: option.splits if_splits)
  from a b show ?thesis by blast
qed

theorem empty_annotations_fail_before_file_io_witness:
  "validateTraining sampleRequest = Some (''p1'', ''d1'', ''pets'', sampleConfig) \<and>
   findProject (sampleWorld [] [''a.jpg''] (\<lambda>f. Some [1, 2, 3]) (HttpResponse 200 [] (JsonValue acceptedUpload)))
     ''p1'' (user_userId sampleRequest) \<and>
   findDataset (sampleWorld [] [''a.jpg''] (\<lambda>f. Some [1, 2, 3]) (HttpResponse 200 [] (JsonValue acceptedUpload)))
     ''d1'' (user_userId sampleRequest) \<and>
   findAnnotations (sampleWorld [] [''a.jpg''] (\<lambda>f. Some [1, 2, 3]) (HttpResponse 200 [] (JsonValue acceptedUpload)))
     ''d1'' = [] \<and>
   startTraining (sampleWorld [] [''a.jpg''] (\<lambda>f. Some [1, 2, 3]) (HttpResponse 200 [] (JsonValue acceptedUpload)))
       sampleRequest =
     (NoAnnotationsError, [DbProjectFindFirst, DbDatasetFindFirst, DbAnnotationFindMany]) \<and>
   filter isFileIO
     (snd (startTraining (sampleWorld [] [''a.jpg''] (\<lambda>f. Some [1, 2, 3]) (HttpResponse 200 [] (JsonValue acceptedUpload)))
        sampleRequest)) = []"
proof -
  let ?w = "sampleWorld [] [''a.jpg''] (\<lambda>f. Some [1, 2, 3]) (HttpResponse 200 [] (JsonValue acceptedUpload))"
  have pre: "validateTraining sampleRequest = Some (''p1'', ''d1'', ''pets'', sampleConfig)"
    "findProject ?w ''p1'' (user_userId sampleRequest)"
    "findDataset ?w ''d1'' (user_userId sampleRequest)"
    "findAnnotations ?w ''d1'' = []"
    by (simp_all add: validateTraining_def sampleRequest_def sampleWorld_def findProject_def
          findDataset_def findAnnotations_def)
  from empty_annotations_fail_before_file_io
         [of sampleRequest "''p1''" "''d1''" "''pets''" sampleConfig ?w] pre
  show ?thesis by simp
qed

section \<open>The handler: no image matched\<close>

lemma toLowerCase_Nil: "toLowerCase lc [] = []"
  by (simp add: toLowerCase_def)

lemma isImageFile_nonempty: "isImageFile lc file \<Longrightarrow> file \<noteq> []"
  by (auto simp: isImageFile_def imageExtensions_def endsWith_def toLowerCase_def)

lemma assignedFile_imageFiles:
  assumes "\<forall>f \<in> set files. f \<noteq> []"
  shows "assignedFile lc files ann = matchingImageFile lc files (imageId ann)"
proof (cases "matchingImageFile lc files (imageId ann)")
  case None
  then show ?thesis by (simp add: assignedFile_def)
next
  case (Some f)
  then have "f \<in> set files" by (rule matchingImageFile_Some)
  with assms Some show ?thesis by (simp add: assignedFile_def)
qed

lemma normalPath_empty_iff:
  "annotatedImageFiles (normalPath lc annotations files) = [] \<longleftrightarrow>
     (\<forall>a \<in> set annotations. assignedFile lc files a = None)"
proof -
  have "annotatedImageFiles (normalPath lc annotations files) =
          firstOccurrences (List.map_filter (assignedFile lc files) annotations)"
    using normalInv_normalPath[of lc files annotations] by (simp add: normalInv_def)
  then have "annotatedImageFiles (normalPath lc annotations files) = [] \<longleftrightarrow>
      set (List.map_filter (assignedFile lc files) annotations) = {}"
    by (metis set_empty set_firstOccurrences)
  also have "\<dots> \<longleftrightarrow> (\<forall>a \<in> set annotations. assignedFile lc files a = None)"
    unfolding set_map_filter by (simp add: set_eq_iff) (metis not_Some_eq)
  finally show ?thesis .
qed

lemma expandPath_nonempty:
  assumes "annotations \<noteq> []" and "files \<noteq> []"
  shows "annotatedImageFiles (expandPath annotations files) \<noteq> []"
proof -
  let ?k = "min (length annotations) (length files)"
  let ?size = "nat \<lceil>(of_nat (length annotations) :: rat) / of_nat ?k\<rceil>"
  from assms have k: "0 < ?k" by simp
  from chunks_cover[OF k, of "length annotations"] assms(1) have "0 < ?size"
    by (cases "?size = 0") auto
  with assms(1) have "specChunk annotations (length files) 0 \<noteq> []"
    by (simp add: specChunk_def Let_def)
  with k have "0 \<in> set (filter (\<lambda>i. specChunk annotations (length files) i \<noteq> []) [0 ..< ?k])"
    by simp
  then have "filter (\<lambda>i. specChunk annotations (length files) i \<noteq> []) [0 ..< ?k] \<noteq> []"
    by (metis empty_iff empty_set)
  then show ?thesis
    by (simp add: expandPath_assignments expandAssignments_keys)
qed

lemma reconcile_empty_normal:
  assumes "annotations \<noteq> []" and "ids \<noteq> []"
    and "annotatedImageFiles (reconcile lc annotations ids files) = []"
  shows "reconcile lc annotations ids files = normalPath lc annotations files"
proof (rule ccontr)
  assume "reconcile lc annotations ids files \<noteq> normalPath lc annotations files"
  then have e: "shouldExpandImageSelection ids files"
    and r: "reconcile lc annotations ids files = expandPath annotations files"
    by (auto simp: reconcile_def split: if_splits)
  from e assms(2) have "files \<noteq> []"
    by (cases ids) (auto simp: shouldExpandImageSelection_def Let_def)
  from expandPath_nonempty[OF assms(1) this] assms(3) r show False by simp
qed

lemma normalPath_imageFiles: "imageFiles (normalPath lc annotations files) = files"
  using normalInv_normalPath[of lc files annotations] by (simp add: normalInv_def)

lemma annotationsByImage_nonempty:
  assumes "annotationsByImage annotations = Some grouped" and "annotations \<noteq> []"
  shows "objectKeys grouped \<noteq> []"
proof -
  from uniqueImageIds_count(2)[OF assms(1)] assms(2)
  have "set (objectKeys grouped) \<noteq> {}" by simp
  then show ?thesis by auto
qed

lemma startTraining_reaches_export:
  assumes "validateTraining req = Some (projectId, datasetId, datasetName, trainingConfig)"
    and "findProject w projectId (user_userId req)"
    and "findDataset w datasetId (user_userId req)"
    and "findAnnotations w datasetId \<noteq> []"
    and "annotationsByImage (findAnnotations w datasetId) = Some grouped"
    and "readdir w datasetId = Some datasetFiles"
  shows "startTraining w req =
     (fst (exportDataset w (user_userId req) datasetId datasetName trainingConfig (now w)
             (findAnnotations w datasetId)
             (map cls_name (findAnnotationClasses w datasetId (user_userId req)))
             (objectKeys grouped) datasetFiles),
      [DbProjectFindFirst, DbDatasetFindFirst, DbAnnotationFindMany, DbAnnotationClassFindMany,
       FsReaddir datasetId] @
      snd (exportDataset w (user_userId req) datasetId datasetName trainingConfig (now w)
             (findAnnotations w datasetId)
             (map cls_name (findAnnotationClasses w datasetId (user_userId req)))
             (objectKeys grouped) datasetFiles))"
  using assms by (simp add: startTraining_def exportAnnotations_def Let_def)

text \<open>
  C6. When a request reaches reconciliation and no image file ends up with an annotation,
  the handler answers with the no-matched-images error right after listing the directory.
  Its payload holds the first ten image files at most and the distinct imageIds of all
  annotations, none of which matches any image file exactly or case-insensitively.
\<close>

theorem no_matched_images_error:
  assumes "validateTraining req = Some (projectId, datasetId, datasetName, trainingConfig)"
    and "findProject w projectId (user_userId req)"
    and "findDataset w datasetId (user_userId req)"
    and "findAnnotations w datasetId \<noteq> []"
    and "annotationsByImage (findAnnotations w datasetId) = Some grouped"
    and "readdir w datasetId = Some datasetFiles"
    and "annotatedImageFiles
           (reconcile (caseMapping w) (findAnnotations w datasetId) (objectKeys grouped)
              (filter (isImageFile (caseMapping w)) datasetFiles)) = []"
  shows "startTraining w req =
           (NoMatchedImagesError (take 10 (filter (isImageFile (caseMapping w)) datasetFiles)) (objectKeys grouped),
            [DbProjectFindFirst, DbDatasetFindFirst, DbAnnotationFindMany,
             DbAnnotationClassFindMany, FsReaddir datasetId]) \<and>
         length (take 10 (filter (isImageFile (caseMapping w)) datasetFiles)) \<le> 10 \<and>
         set (objectKeys grouped) = imageId ` set (findAnnotations w datasetId) \<and>
         distinct (objectKeys grouped) \<and>
         (\<forall>a \<in> set (findAnnotations w datasetId).
            \<forall>f \<in> set (filter (isImageFile (caseMapping w)) datasetFiles).
              imageId a \<noteq> f \<and> toLowerCase (caseMapping w) (imageId a) \<noteq> toLowerCase (caseMapping w) f)"
proof -
  let ?anns = "findAnnotations w datasetId"
  let ?files = "filter (isImageFile (caseMapping w)) datasetFiles"
  have ids: "objectKeys grouped \<noteq> []"
    using assms(5,4) by (rule annotationsByImage_nonempty)
  have normal: "reconcile (caseMapping w) ?anns (objectKeys grouped) ?files = normalPath (caseMapping w) ?anns ?files"
    using assms(4) ids assms(7) by (rule reconcile_empty_normal)
  have answer: "startTraining w req =
      (NoMatchedImagesError (take 10 ?files) (objectKeys grouped),
       [DbProjectFindFirst, DbDatasetFindFirst, DbAnnotationFindMany,
        DbAnnotationClassFindMany, FsReaddir datasetId])"
    unfolding startTraining_reaches_export[OF assms(1-6)]
    using assms(7) normal by (simp add: exportDataset_def Let_def normalPath_imageFiles)
  have nonempty: "\<forall>f \<in> set ?files. f \<noteq> []"
    by (auto dest: isImageFile_nonempty)
  from assms(7) normal have "\<forall>a \<in> set ?anns. assignedFile (caseMapping w) ?files a = None"
    by (simp add: normalPath_empty_iff)
  then have "\<forall>a \<in> set ?anns. matchingImageFile (caseMapping w) ?files (imageId a) = None"
    by (simp add: assignedFile_imageFiles[OF nonempty])
  then have unresolved: "\<forall>a \<in> set ?anns. \<forall>f \<in> set ?files.
      imageId a \<noteq> f \<and> toLowerCase (caseMapping w) (imageId a) \<noteq> toLowerCase (caseMapping w) f"
    by (simp add: matchingImageFile_None)
  from answer unresolved uniqueImageIds_count(2,3)[OF assms(5)] show ?thesis
    by simp
qed

theorem no_matched_images_error_witness:
  "validateTraining sampleRequest = Some (''p1'', ''d1'', ''pets'', sampleConfig) \<and>
   findProject (sampleWorld sampleAnnotations [''notes.txt'', ''q.png''] (\<lambda>f. Some [1, 2, 3])
     (HttpResponse 200 [] (JsonValue acceptedUpload))) ''p1'' (user_userId sampleRequest) \<and>
   findDataset (sampleWorld sampleAnnotations [''notes.txt'', ''q.png''] (\<lambda>f. Some [1, 2, 3])
     (HttpResponse 200 [] (JsonValue acceptedUpload))) ''d1'' (user_userId sampleRequest) \<and>
   findAnnotations (sampleWorld sampleAnnotations [''notes.txt'', ''q.png''] (\<lambda>f. Some [1, 2, 3])
     (HttpResponse 200 [] (JsonValue acceptedUpload))) ''d1'' = sampleAnnotations \<and>
   sampleAnnotations \<noteq> [] \<and>
   annotationsByImage sampleAnnotations =
     Some [(''B.JPG'', [mkAnnotation ''1'' ''B.JPG'']), (''zzz.jpg'', [mkAnnotation ''2'' ''zzz.jpg'']),
           (''a.jpg'', [mkAnnotation ''3'' ''a.jpg'']), (''b.jpg'', [mkAnnotation ''4'' ''b.jpg''])] \<and>
   readdir (sampleWorld sampleAnnotations [''notes.txt'', ''q.png''] (\<lambda>f. Some [1, 2, 3])
     (HttpResponse 200 [] (JsonValue acceptedUpload))) ''d1'' = Some [''notes.txt'', ''q.png''] \<and>
   annotatedImageFiles
     (reconcile asciiLower sampleAnnotations [''B.JPG'', ''zzz.jpg'', ''a.jpg'', ''b.jpg'']
        (filter (isImageFile asciiLower) [''notes.txt'', ''q.png''])) = [] \<and>
   startTraining (sampleWorld sampleAnnotations [''notes.txt'', ''q.png''] (\<lambda>f. Some [1, 2, 3])
       (HttpResponse 200 [] (JsonValue acceptedUpload))) sampleRequest =
     (NoMatchedImagesError [''q.png''] [''B.JPG'', ''zzz.jpg'', ''a.jpg'', ''b.jpg''],
      [DbProjectFindFirst, DbDatasetFindFirst, DbAnnotationFindMany, DbAnnotationClassFindMany,
       FsReaddir ''d1''])"
proof -
  let ?w = "sampleWorld sampleAnnotations [''notes.txt'', ''q.png''] (\<lambda>f. Some [1, 2, 3])
     (HttpResponse 200 [] (JsonValue acceptedUpload))"
  let ?g = "[(''B.JPG'', [mkAnnotation ''1'' ''B.JPG'']), (''zzz.jpg'', [mkAnnotation ''2'' ''zzz.jpg'']),
           (''a.jpg'', [mkAnnotation ''3'' ''a.jpg'']), (''b.jpg'', [mkAnnotation ''4'' ''b.jpg''])]"
  have pre: "validateTraining sampleRequest = Some (''p1'', ''d1'', ''pets'', sampleConfig)"
    "findProject ?w ''p1'' (user_userId sampleRequest)"
    "findDataset ?w ''d1'' (user_userId sampleRequest)"
    "readdir ?w ''d1'' = Some [''notes.txt'', ''q.png'']"
    by (simp_all add: validateTraining_def sampleRequest_def sampleWorld_def findProject_def
          findDataset_def)
  have anns: "findAnnotations ?w ''d1'' = sampleAnnotations"
    by (simp add: sampleWorld_def findAnnotations_def sampleAnnotations_def mkAnnotation_def)
  have ne: "sampleAnnotations \<noteq> []" by (simp add: sampleAnnotations_def)
  have grouped: "annotationsByImage sampleAnnotations = Some ?g"
    by (simp add: annotationsByImage_def groupStep_def objectPrototypeKeys_def
          sampleAnnotations_def mkAnnotation_def)
  have keys: "objectKeys ?g = [''B.JPG'', ''zzz.jpg'', ''a.jpg'', ''b.jpg'']"
    by (simp add: objectKeys_def isArrayIndex_def isDigit_def)
  have files: "filter (isImageFile asciiLower) [''notes.txt'', ''q.png''] = [''q.png'']"
    by code_simp
  have none: "annotatedImageFiles
     (reconcile asciiLower sampleAnnotations [''B.JPG'', ''zzz.jpg'', ''a.jpg'', ''b.jpg''] [''q.png'']) = []"
    by code_simp
  have cm: "caseMapping ?w = asciiLower" by (simp add: sampleWorld_def)
  from no_matched_images_error
         [of sampleRequest "''p1''" "''d1''" "''pets''" sampleConfig ?w ?g "[''notes.txt'', ''q.png'']",
          unfolded cm]
       pre anns ne grouped keys files none
  show ?thesis by simp
qed

section \<open>Archive assembly and dispatch\<close>

lemma processImage_images:
  "imagesFolder (fst (processImage w d cm am st f)) =
     (if readable w d f then (imagesFolder (fst st))(f := readFile w d f)
      else imagesFolder (fst st))"
  by (auto simp: processImage_def readable_def Let_def split: option.splits)

lemma processImage_labels:
  "dom (labelsFolder (fst (processImage w d cm am st f))) =
     (if readable w d f then insert (labelFileName f) (dom (labelsFolder (fst st)))
      else dom (labelsFolder (fst st)))"
  by (auto simp: processImage_def readable_def Let_def split: option.splits)

lemma processImage_trace:
  "snd (processImage w d cm am st f) = snd st @ readEvents w d f"
  by (auto simp: processImage_def readEvents_def Let_def split: option.splits)

lemma processImage_folder:
  "mainDatasetFolder (fst (processImage w d cm am st f)) = mainDatasetFolder (fst st)"
  by (auto simp: processImage_def Let_def split: option.splits)

lemma fold_images:
  "imagesFolder (fst (foldl (processImage w d cm am) st fs)) =
     (\<lambda>f. if f \<in> set fs \<and> readable w d f then readFile w d f else imagesFolder (fst st) f)"
proof (induction fs rule: rev_induct)
  case Nil
  show ?case by simp
next
  case (snoc f fs)
  show ?case
    by (auto simp: processImage_images snoc fun_eq_iff)
qed

lemma fold_labels:
  "dom (labelsFolder (fst (foldl (processImage w d cm am) st fs))) =
     dom (labelsFolder (fst st)) \<union> labelFileName ` {f \<in> set fs. readable w d f}"
proof (induction fs rule: rev_induct)
  case Nil
  show ?case by simp
next
  case (snoc f fs)
  show ?case
    by (auto simp: processImage_labels snoc)
qed

lemma fold_trace:
  "snd (foldl (processImage w d cm am) st fs) = snd st @ concat (map (readEvents w d) fs)"
proof (induction fs rule: rev_induct)
  case Nil
  show ?case by simp
next
  case (snoc f fs)
  show ?case
    by (simp add: processImage_trace snoc)
qed

lemma fold_folder:
  "mainDatasetFolder (fst (foldl (processImage w d cm am) st fs)) = mainDatasetFolder (fst st)"
  by (induction fs rule: rev_induct) (simp_all add: processImage_folder)

lemma buildArchive_images:
  "imagesFolder (fst (buildArchive w d n t names cfg rec)) f =
     (if f \<in> set (annotatedImageFiles rec) \<and> readable w d f then readFile w d f else None)"
  by (simp add: buildArchive_def Let_def fold_images)

lemma buildArchive_labels:
  "dom (labelsFolder (fst (buildArchive w d n t names cfg rec))) =
     labelFileName ` {f \<in> set (annotatedImageFiles rec). readable w d f}"
  by (simp add: buildArchive_def Let_def fold_labels)

lemma buildArchive_trace:
  "snd (buildArchive w d n t names cfg rec) =
     concat (map (readEvents w d) (annotatedImageFiles rec))"
  by (simp add: buildArchive_def Let_def fold_trace)

lemma buildArchive_config:
  "configYaml (fst (buildArchive w d n t names cfg rec)) = Some (createConfigYaml cfg names n t)"
  "mainDatasetFolder (fst (buildArchive w d n t names cfg rec)) = n @ ''_Training_'' @ decimal t"
  by (simp_all add: buildArchive_def Let_def fold_folder)

lemma exportDataset_dispatches:
  assumes "annotatedImageFiles (reconcile (caseMapping w) annotations ids (filter (isImageFile (caseMapping w)) datasetFiles)) \<noteq> []"
  shows "exportDataset w u d n cfg t annotations names ids datasetFiles =
     (fst (dispatch w u n cfg t names
        (length (annotatedImageFiles (reconcile (caseMapping w) annotations ids (filter (isImageFile (caseMapping w)) datasetFiles))))
        (length annotations)
        (fst (buildArchive w d n t names cfg
                (reconcile (caseMapping w) annotations ids (filter (isImageFile (caseMapping w)) datasetFiles))))),
      concat (map (readEvents w d)
        (annotatedImageFiles (reconcile (caseMapping w) annotations ids (filter (isImageFile (caseMapping w)) datasetFiles)))) @
      [WorkerUploadDataset (u @ ''/'' @ n @ ''_'' @ decimal t)])"
  using assms by (simp add: exportDataset_def Let_def buildArchive_trace dispatch_trace)

lemma dispatch_accepts:
  assumes "\<forall>form. uploadThroughWorker (worker w form) = Inr uploadResult"
  shows "fst (dispatch w u n cfg t names k m zipArchive) =
     Succeeded
       \<lparr>res_trainingId = ''training_'' @ decimal t,
        res_objectName = up_fileName uploadResult,
        res_bucketName = up_bucket uploadResult,
        res_downloadUrl = up_presignedUrl uploadResult,
        res_totalAnnotatedImages = k,
        res_totalAnnotations = m,
        res_classNames = names,
        res_trainingConfig = cfg,
        res_uploadPath = up_uploadPath uploadResult\<rparr>"
  using assms by (simp add: dispatch_def Let_def)

text \<open>
  C7 (amended). An image of the annotated files is in the archive exactly if it can be read,
  and a label file is in the archive exactly for the readable images; the loop attempts every
  annotated file in turn, whatever happened to the files before it. No read failure reaches
  the caller: once some file has an annotation, the answer is that of the dispatch, so with a
  worker that accepts the upload the export succeeds and counts every annotated file, read
  or not.
\<close>

theorem read_failure_skips_one_image:
  "imagesFolder (fst (buildArchive w d n t names cfg rec)) f =
     (if f \<in> set (annotatedImageFiles rec) \<and> readable w d f then readFile w d f else None) \<and>
   dom (labelsFolder (fst (buildArchive w d n t names cfg rec))) =
     labelFileName ` {f \<in> set (annotatedImageFiles rec). readable w d f} \<and>
   snd (buildArchive w d n t names cfg rec) =
     concat (map (readEvents w d) (annotatedImageFiles rec)) \<and>
   (annotatedImageFiles (reconcile (caseMapping w) annotations ids (filter (isImageFile (caseMapping w)) datasetFiles)) \<noteq> [] \<and>
    (\<forall>form. uploadThroughWorker (worker w form) = Inr uploadResult) \<longrightarrow>
      fst (exportDataset w u d n cfg t annotations names ids datasetFiles) =
        Succeeded
          \<lparr>res_trainingId = ''training_'' @ decimal t,
           res_objectName = up_fileName uploadResult,
           res_bucketName = up_bucket uploadResult,
           res_downloadUrl = up_presignedUrl uploadResult,
           res_totalAnnotatedImages =
             length (annotatedImageFiles
                       (reconcile (caseMapping w) annotations ids (filter (isImageFile (caseMapping w)) datasetFiles))),
           res_totalAnnotations = length annotations,
           res_classNames = names,
           res_trainingConfig = cfg,
           res_uploadPath = up_uploadPath uploadResult\<rparr>)"
  by (simp add: buildArchive_images buildArchive_labels buildArchive_trace
        exportDataset_dispatches dispatch_accepts)

lemma sample_ids:
  "annotationsByImage sampleAnnotations =
     Some [(''B.JPG'', [mkAnnotation ''1'' ''B.JPG'']), (''zzz.jpg'', [mkAnnotation ''2'' ''zzz.jpg'']),
           (''a.jpg'', [mkAnnotation ''3'' ''a.jpg'']), (''b.jpg'', [mkAnnotation ''4'' ''b.jpg''])]"
  "objectKeys [(''B.JPG'', [mkAnnotation ''1'' ''B.JPG'']), (''zzz.jpg'', [mkAnnotation ''2'' ''zzz.jpg'']),
           (''a.jpg'', [mkAnnotation ''3'' ''a.jpg'']), (''b.jpg'', [mkAnnotation ''4'' ''b.jpg''])] =
     [''B.JPG'', ''zzz.jpg'', ''a.jpg'', ''b.jpg'']"
  by code_simp+

lemma sample_reconcile:
  "annotatedImageFiles
     (reconcile asciiLower sampleAnnotations [''B.JPG'', ''zzz.jpg'', ''a.jpg'', ''b.jpg'']
        (filter (isImageFile asciiLower) sampleFiles)) = [''b.jpg'', ''a.jpg'']"
  by code_simp

lemma partialWorld_facts:
  "uploadThroughWorker (worker partialWorld form) = Inr acceptedUpload"
  "readable partialWorld ''d1'' ''b.jpg''"
  "\<not> readable partialWorld ''d1'' ''a.jpg''"
  "readFile partialWorld ''d1'' ''b.jpg'' = Some [1, 2, 3]"
  "readEvents partialWorld ''d1'' ''b.jpg'' = [FsAccess ''d1'' ''b.jpg'', FsReadFile ''d1'' ''b.jpg'']"
  "readEvents partialWorld ''d1'' ''a.jpg'' = [FsAccess ''d1'' ''a.jpg'']"
  "caseMapping partialWorld = asciiLower"
  by (simp_all add: partialWorld_def sampleWorld_def acceptingReply_def acceptedUpload_def
        uploadThroughWorker_def responseOk_def readable_def readEvents_def)

theorem read_failure_skips_one_image_witness:
  "annotatedImageFiles
     (reconcile asciiLower sampleAnnotations [''B.JPG'', ''zzz.jpg'', ''a.jpg'', ''b.jpg'']
        (filter (isImageFile asciiLower) sampleFiles)) = [''b.jpg'', ''a.jpg''] \<and>
   uploadThroughWorker acceptingReply = Inr acceptedUpload \<and>
   imagesFolder (fst (buildArchive partialWorld ''d1'' ''pets'' 1700000000000 [''cat''] sampleConfig
     (reconcile asciiLower sampleAnnotations [''B.JPG'', ''zzz.jpg'', ''a.jpg'', ''b.jpg'']
        (filter (isImageFile asciiLower) sampleFiles)))) ''a.jpg'' = None \<and>
   imagesFolder (fst (buildArchive partialWorld ''d1'' ''pets'' 1700000000000 [''cat''] sampleConfig
     (reconcile asciiLower sampleAnnotations [''B.JPG'', ''zzz.jpg'', ''a.jpg'', ''b.jpg'']
        (filter (isImageFile asciiLower) sampleFiles)))) ''b.jpg'' = Some [1, 2, 3] \<and>
   snd (buildArchive partialWorld ''d1'' ''pets'' 1700000000000 [''cat''] sampleConfig
     (reconcile asciiLower sampleAnnotations [''B.JPG'', ''zzz.jpg'', ''a.jpg'', ''b.jpg'']
        (filter (isImageFile asciiLower) sampleFiles))) =
     [FsAccess ''d1'' ''b.jpg'', FsReadFile ''d1'' ''b.jpg'', FsAccess ''d1'' ''a.jpg''] \<and>
   fst (exportDataset partialWorld ''u1'' ''d1'' ''pets'' sampleConfig 1700000000000
          sampleAnnotations [''cat''] [''B.JPG'', ''zzz.jpg'', ''a.jpg'', ''b.jpg''] sampleFiles) =
     Succeeded
       \<lparr>res_trainingId = ''training_1700000000000'',
        res_objectName = ''u1/pets_1700000000000.zip'',
        res_bucketName = ''datasets'',
        res_downloadUrl = ''https://minio.example/datasets/u1/pets_1700000000000.zip'',
        res_totalAnnotatedImages = 2,
        res_totalAnnotations = 4,
        res_classNames = [''cat''],
        res_trainingConfig = sampleConfig,
        res_uploadPath = ''u1/pets_1700000000000''\<rparr>"
proof -
  let ?ids = "[''B.JPG'', ''zzz.jpg'', ''a.jpg'', ''b.jpg'']"
  let ?rec = "reconcile asciiLower sampleAnnotations ?ids (filter (isImageFile asciiLower) sampleFiles)"
  note t = read_failure_skips_one_image
    [of partialWorld "''d1''" "''pets''" 1700000000000 "[''cat'']" sampleConfig ?rec _
        sampleAnnotations ?ids sampleFiles acceptedUpload "''u1''"]
  have a: "imagesFolder (fst (buildArchive partialWorld ''d1'' ''pets'' 1700000000000 [''cat'']
      sampleConfig ?rec)) ''a.jpg'' = None"
    using t[of "''a.jpg''", THEN conjunct1] by (simp add: partialWorld_facts)
  have b: "imagesFolder (fst (buildArchive partialWorld ''d1'' ''pets'' 1700000000000 [''cat'']
      sampleConfig ?rec)) ''b.jpg'' = Some [1, 2, 3]"
    using t[of "''b.jpg''", THEN conjunct1] by (simp add: partialWorld_facts sample_reconcile)
  have c: "snd (buildArchive partialWorld ''d1'' ''pets'' 1700000000000 [''cat''] sampleConfig ?rec) =
      [FsAccess ''d1'' ''b.jpg'', FsReadFile ''d1'' ''b.jpg'', FsAccess ''d1'' ''a.jpg'']"
    using t[of "''a.jpg''", THEN conjunct2, THEN conjunct2, THEN conjunct1]
    by (simp add: partialWorld_facts sample_reconcile)
  have len: "length sampleAnnotations = 4" by (simp add: sampleAnnotations_def)
  have d: "fst (exportDataset partialWorld ''u1'' ''d1'' ''pets'' sampleConfig 1700000000000
          sampleAnnotations [''cat''] ?ids sampleFiles) =
     Succeeded
       \<lparr>res_trainingId = ''training_1700000000000'',
        res_objectName = ''u1/pets_1700000000000.zip'',
        res_bucketName = ''datasets'',
        res_downloadUrl = ''https://minio.example/datasets/u1/pets_1700000000000.zip'',
        res_totalAnnotatedImages = 2,
        res_totalAnnotations = 4,
        res_classNames = [''cat''],
        res_trainingConfig = sampleConfig,
        res_uploadPath = ''u1/pets_1700000000000''\<rparr>"
    using t[of "''a.jpg''", THEN conjunct2, THEN conjunct2, THEN conjunct2]
    by (simp add: partialWorld_facts sample_reconcile len acceptedUpload_def decimal_eval)
  have e: "uploadThroughWorker acceptingReply = Inr acceptedUpload"
    by (simp add: acceptingReply_def acceptedUpload_def uploadThroughWorker_def responseOk_def)
  from a b c d e sample_reconcile show ?thesis
    by (intro conjI)
qed

lemma unreadableWorld_facts:
  "validateTraining sampleRequest = Some (''p1'', ''d1'', ''pets'', sampleConfig)"
  "user_userId sampleRequest = ''u1''"
  "findProject unreadableWorld ''p1'' ''u1''"
  "findDataset unreadableWorld ''d1'' ''u1''"
  "findAnnotations unreadableWorld ''d1'' = [mkAnnotation ''1'' ''a.jpg'']"
  "map cls_name (findAnnotationClasses unreadableWorld ''d1'' ''u1'') = [''cat'']"
  "readdir unreadableWorld ''d1'' = Some [''a.jpg'']"
  "now unreadableWorld = 1700000000000"
  "uploadThroughWorker (worker unreadableWorld form) = Inr acceptedUpload"
  "readEvents unreadableWorld ''d1'' ''a.jpg'' = [FsAccess ''d1'' ''a.jpg'']"
  "\<not> readable unreadableWorld ''d1'' ''a.jpg''"
  "caseMapping unreadableWorld = asciiLower"
  by (simp_all add: unreadableWorld_def sampleWorld_def acceptingReply_def acceptedUpload_def
        uploadThroughWorker_def responseOk_def readable_def readEvents_def validateTraining_def
        sampleRequest_def findProject_def findDataset_def findAnnotations_def
        findAnnotationClasses_def mkAnnotation_def)

lemma single_reconcile:
  "annotationsByImage [mkAnnotation ''1'' ''a.jpg''] = Some [(''a.jpg'', [mkAnnotation ''1'' ''a.jpg''])]"
  "objectKeys [(''a.jpg'', [mkAnnotation ''1'' ''a.jpg''])] = [''a.jpg'']"
  "annotatedImageFiles (reconcile asciiLower [mkAnnotation ''1'' ''a.jpg''] [''a.jpg'']
     (filter (isImageFile asciiLower) [''a.jpg''])) = [''a.jpg'']"
  by code_simp+

text \<open>
  The only annotated image cannot be read (the trace has its \<^verbatim>\<open>access\<close> and no
  \<^verbatim>\<open>readFile\<close>), the archive holds no image, and the handler answers with success.
\<close>

theorem read_failure_skips_one_image_counterexample:
  "startTraining unreadableWorld sampleRequest =
     (Succeeded
        \<lparr>res_trainingId = ''training_1700000000000'',
         res_objectName = ''u1/pets_1700000000000.zip'',
         res_bucketName = ''datasets'',
         res_downloadUrl = ''https://minio.example/datasets/u1/pets_1700000000000.zip'',
         res_totalAnnotatedImages = 1,
         res_totalAnnotations = 1,
         res_classNames = [''cat''],
         res_trainingConfig = sampleConfig,
         res_uploadPath = ''u1/pets_1700000000000''\<rparr>,
      [DbProjectFindFirst, DbDatasetFindFirst, DbAnnotationFindMany, DbAnnotationClassFindMany,
       FsReaddir ''d1'', FsAccess ''d1'' ''a.jpg'', WorkerUploadDataset ''u1/pets_1700000000000'']) \<and>
   filter (readable unreadableWorld ''d1'') [''a.jpg''] = []"
proof -
  have ne: "findAnnotations unreadableWorld ''d1'' \<noteq> []"
    by (simp add: unreadableWorld_facts)
  have g: "annotationsByImage (findAnnotations unreadableWorld ''d1'') =
      Some [(''a.jpg'', [mkAnnotation ''1'' ''a.jpg''])]"
    by (simp add: unreadableWorld_facts single_reconcile)
  have "startTraining unreadableWorld sampleRequest =
     (fst (exportDataset unreadableWorld ''u1'' ''d1'' ''pets'' sampleConfig 1700000000000
             [mkAnnotation ''1'' ''a.jpg''] [''cat''] [''a.jpg''] [''a.jpg'']),
      [DbProjectFindFirst, DbDatasetFindFirst, DbAnnotationFindMany, DbAnnotationClassFindMany,
       FsReaddir ''d1''] @
      snd (exportDataset unreadableWorld ''u1'' ''d1'' ''pets'' sampleConfig 1700000000000
             [mkAnnotation ''1'' ''a.jpg''] [''cat''] [''a.jpg''] [''a.jpg'']))"
    using startTraining_reaches_export
            [OF unreadableWorld_facts(1), of unreadableWorld, OF _ _ ne g unreadableWorld_facts(7)]
    by (simp add: unreadableWorld_facts single_reconcile)
  also have "exportDataset unreadableWorld ''u1'' ''d1'' ''pets'' sampleConfig 1700000000000
             [mkAnnotation ''1'' ''a.jpg''] [''cat''] [''a.jpg''] [''a.jpg''] =
     (Succeeded
        \<lparr>res_trainingId = ''training_1700000000000'',
         res_objectName = ''u1/pets_1700000000000.zip'',
         res_bucketName = ''datasets'',
         res_downloadUrl = ''https://minio.example/datasets/u1/pets_1700000000000.zip'',
         res_totalAnnotatedImages = 1,
         res_totalAnnotations = 1,
         res_classNames = [''cat''],
         res_trainingConfig = sampleConfig,
         res_uploadPath = ''u1/pets_1700000000000''\<rparr>,
      [FsAccess ''d1'' ''a.jpg'', WorkerUploadDataset ''u1/pets_1700000000000''])"
  proof -
    have ne2: "annotatedImageFiles
        (reconcile (caseMapping unreadableWorld) [mkAnnotation ''1'' ''a.jpg''] [''a.jpg'']
           (filter (isImageFile (caseMapping unreadableWorld)) [''a.jpg''])) \<noteq> []"
      unfolding unreadableWorld_facts(12) single_reconcile(3) by simp
    have acc: "\<forall>form. uploadThroughWorker (worker unreadableWorld form) = Inr acceptedUpload"
      by (simp add: unreadableWorld_facts)
    show ?thesis
      unfolding exportDataset_dispatches[OF ne2] unreadableWorld_facts(12) single_reconcile(3)
        dispatch_accepts[OF acc]
      by (simp add: unreadableWorld_facts acceptedUpload_def decimal_eval)
  qed
  finally show ?thesis
    by (simp add: unreadableWorld_facts)
qed

lemma uploadThroughWorker_Inr_iff:
  "uploadThroughWorker reply = Inr uploadResult \<longleftrightarrow>
     (\<exists>status text. reply = HttpResponse status text (JsonValue uploadResult) \<and>
        responseOk status \<and> up_success uploadResult)"
  by (auto simp: uploadThroughWorker_def split: worker_reply.splits body_json.splits)

lemma uploadThroughWorker_failures:
  "uploadThroughWorker (FetchRejects message) = Inl message"
  "\<not> responseOk status \<Longrightarrow>
     uploadThroughWorker (HttpResponse status errorText json) =
       Inl (''Worker upload failed: '' @ decimal status @ '' - '' @ errorText)"
  "responseOk status \<Longrightarrow>
     uploadThroughWorker (HttpResponse status errorText (JsonThrows message)) = Inl message"
  "responseOk status \<Longrightarrow> \<not> up_success uploadResult \<Longrightarrow>
     uploadThroughWorker (HttpResponse status errorText (JsonValue uploadResult)) =
       Inl ''Worker upload failed: No success flag in response''"
  by (simp_all add: uploadThroughWorker_def)

lemma dispatch_answer:
  "fst (dispatch w u n cfg t names k m zipArchive) =
     (case uploadThroughWorker
             (worker w \<lparr>form_file = zipArchive,
                        form_fileName = (u @ ''/'' @ n @ ''_'' @ decimal t) @ ''.zip'',
                        form_uploadPath = u @ ''/'' @ n @ ''_'' @ decimal t,
                        form_bucket = ''datasets'',
                        form_autoStartTraining = ''true'',
                        form_trainingConfig = cfg\<rparr>) of
        Inl details \<Rightarrow> UploadDispatchError details
      | Inr uploadResult \<Rightarrow>
          Succeeded
            \<lparr>res_trainingId = ''training_'' @ decimal t,
             res_objectName = up_fileName uploadResult,
             res_bucketName = up_bucket uploadResult,
             res_downloadUrl = up_presignedUrl uploadResult,
             res_totalAnnotatedImages = k,
             res_totalAnnotations = m,
             res_classNames = names,
             res_trainingConfig = cfg,
             res_uploadPath = up_uploadPath uploadResult\<rparr>)"
  by (simp add: dispatch_def Let_def split: sum.splits)

lemma exportDataset_Succeeded:
  assumes "fst (exportDataset w u d n cfg t annotations names ids datasetFiles) = Succeeded payload"
  shows "\<exists>form uploadResult. uploadThroughWorker (worker w form) = Inr uploadResult \<and>
           form_uploadPath form = u @ ''/'' @ n @ ''_'' @ decimal t"
proof (cases "annotatedImageFiles (reconcile (caseMapping w) annotations ids (filter (isImageFile (caseMapping w)) datasetFiles)) = []")
  case True
  with assms show ?thesis by (simp add: exportDataset_def Let_def)
next
  case False
  let ?form = "\<lparr>form_file = fst (buildArchive w d n t names cfg
                    (reconcile (caseMapping w) annotations ids (filter (isImageFile (caseMapping w)) datasetFiles))),
                 form_fileName = (u @ ''/'' @ n @ ''_'' @ decimal t) @ ''.zip'',
                 form_uploadPath = u @ ''/'' @ n @ ''_'' @ decimal t,
                 form_bucket = ''datasets'',
                 form_autoStartTraining = ''true'',
                 form_trainingConfig = cfg\<rparr>"
  from assms False obtain uploadResult where "uploadThroughWorker (worker w ?form) = Inr uploadResult"
    unfolding exportDataset_dispatches[OF False] fst_conv dispatch_answer
    by (cases "uploadThroughWorker (worker w ?form)") auto
  then show ?thesis by (intro exI[of _ ?form] exI[of _ uploadResult]) simp
qed

lemma startTraining_Succeeded:
  assumes "fst (startTraining w req) = Succeeded payload"
  shows "\<exists>form uploadResult. uploadThroughWorker (worker w form) = Inr uploadResult"
proof -
  from assms obtain u d n cfg t annotations names ids datasetFiles where
    "fst (exportDataset w u d n cfg t annotations names ids datasetFiles) = Succeeded payload"
    by (auto simp: startTraining_def exportAnnotations_def Let_def
             split: option.splits if_splits prod.splits)
  from exportDataset_Succeeded[OF this] show ?thesis by blast
qed

text \<open>
  C8 (amended). The handler answers with success only if the worker answered some upload
  with a success status and a body whose success flag is set. A non-success status fails
  the export with the message carrying the status code and the body text; a rejected fetch
  or an unreadable body fails it with the message of that error; a success status with a body
  without the flag fails it with a fixed message that carries neither status nor body.
\<close>

theorem dispatch_requires_success_flag:
  "(fst (startTraining w req) = Succeeded payload \<longrightarrow>
      (\<exists>form status text uploadResult.
         worker w form = HttpResponse status text (JsonValue uploadResult) \<and>
         responseOk status \<and> up_success uploadResult)) \<and>
   ((\<forall>form. worker w form = HttpResponse status errorText json) \<and> \<not> responseOk status \<longrightarrow>
      fst (dispatch w u n cfg t names k m zipArchive) =
        UploadDispatchError (''Worker upload failed: '' @ decimal status @ '' - '' @ errorText)) \<and>
   ((\<forall>form. worker w form = FetchRejects message) \<longrightarrow>
      fst (dispatch w u n cfg t names k m zipArchive) = UploadDispatchError message) \<and>
   ((\<forall>form. worker w form = HttpResponse status errorText (JsonValue flagless)) \<and>
    responseOk status \<and> \<not> up_success flagless \<longrightarrow>
      fst (dispatch w u n cfg t names k m zipArchive) =
        UploadDispatchError ''Worker upload failed: No success flag in response'') \<and>
   ((\<forall>form. worker w form = HttpResponse status errorText (JsonThrows message)) \<and>
    responseOk status \<longrightarrow>
      fst (dispatch w u n cfg t names k m zipArchive) = UploadDispatchError message)"
proof -
  have c1: "fst (startTraining w req) = Succeeded payload \<longrightarrow>
      (\<exists>form status text uploadResult.
         worker w form = HttpResponse status text (JsonValue uploadResult) \<and>
         responseOk status \<and> up_success uploadResult)"
    using startTraining_Succeeded[of w req payload]
    by (auto simp: uploadThroughWorker_Inr_iff)
  show ?thesis
    using c1 by (simp add: dispatch_answer uploadThroughWorker_failures)
qed

lemma flaglessWorld_facts:
  "worker flaglessWorld = (\<lambda>form. flaglessReply)"
  "responseOk 200"
  "findProject flaglessWorld ''p1'' ''u1''"
  "findDataset flaglessWorld ''d1'' ''u1''"
  "findAnnotations flaglessWorld ''d1'' = [mkAnnotation ''1'' ''a.jpg'']"
  "map cls_name (findAnnotationClasses flaglessWorld ''d1'' ''u1'') = [''cat'']"
  "readdir flaglessWorld ''d1'' = Some [''a.jpg'']"
  "now flaglessWorld = 1700000000000"
  "readEvents flaglessWorld ''d1'' ''a.jpg'' = [FsAccess ''d1'' ''a.jpg'', FsReadFile ''d1'' ''a.jpg'']"
  "caseMapping flaglessWorld = asciiLower"
  by (simp_all add: flaglessWorld_def sampleWorld_def responseOk_def readEvents_def
        findProject_def findDataset_def findAnnotations_def findAnnotationClasses_def
        mkAnnotation_def)

theorem dispatch_requires_success_flag_witness:
  "worker flaglessWorld = (\<lambda>form. flaglessReply) \<and>
   flaglessReply =
     HttpResponse 200 ''{}''
       (JsonValue \<lparr>up_success = False, up_fileName = [], up_presignedUrl = [], up_bucket = [],
                   up_uploadPath = []\<rparr>) \<and>
   responseOk 200 \<and>
   fst (dispatch flaglessWorld ''u1'' ''pets'' sampleConfig 1700000000000 [''cat''] 1 1
          \<lparr>mainDatasetFolder = ''pets_Training_1700000000000'', imagesFolder = Map.empty,
           labelsFolder = Map.empty, configYaml = None\<rparr>) =
     UploadDispatchError ''Worker upload failed: No success flag in response'' \<and>
   \<not> responseOk 503 \<and>
   fst (dispatch (sampleWorld [] [] (\<lambda>f. None) (HttpResponse 503 ''busy'' (JsonThrows [])))
          ''u1'' ''pets'' sampleConfig 1700000000000 [''cat''] 1 1
          \<lparr>mainDatasetFolder = ''pets_Training_1700000000000'', imagesFolder = Map.empty,
           labelsFolder = Map.empty, configYaml = None\<rparr>) =
     UploadDispatchError ''Worker upload failed: 503 - busy'' \<and>
   fst (dispatch (sampleWorld [] [] (\<lambda>f. None) (FetchRejects ''fetch failed''))
          ''u1'' ''pets'' sampleConfig 1700000000000 [''cat''] 1 1
          \<lparr>mainDatasetFolder = ''pets_Training_1700000000000'', imagesFolder = Map.empty,
           labelsFolder = Map.empty, configYaml = None\<rparr>) =
     UploadDispatchError ''fetch failed''"
proof -
  let ?z = "\<lparr>mainDatasetFolder = ''pets_Training_1700000000000'', imagesFolder = Map.empty,
             labelsFolder = Map.empty, configYaml = None\<rparr>"
  let ?flagless = "\<lparr>up_success = False, up_fileName = [], up_presignedUrl = [], up_bucket = [],
               up_uploadPath = []\<rparr>"
  have r: "\<forall>form. worker flaglessWorld form = HttpResponse 200 ''{}'' (JsonValue ?flagless)"
    by (simp add: flaglessWorld_facts flaglessReply_def)
  have busy: "\<forall>form. worker (sampleWorld [] [] (\<lambda>f. None) (HttpResponse 503 ''busy'' (JsonThrows [])))
      form = HttpResponse 503 ''busy'' (JsonThrows [])"
    and down: "\<forall>form. worker (sampleWorld [] [] (\<lambda>f. None) (FetchRejects ''fetch failed'')) form =
      FetchRejects ''fetch failed''"
    by (simp_all add: sampleWorld_def)
  have no: "\<not> responseOk 503" by (simp add: responseOk_def)
  have a: "fst (dispatch flaglessWorld ''u1'' ''pets'' sampleConfig 1700000000000 [''cat''] 1 1 ?z) =
      UploadDispatchError ''Worker upload failed: No success flag in response''"
    using dispatch_requires_success_flag
         [of flaglessWorld _ _ 200 "''{}''" _ "''u1''" "''pets''" sampleConfig 1700000000000
             "[''cat'']" 1 1 ?z _ ?flagless,
          THEN conjunct2, THEN conjunct2, THEN conjunct2, THEN conjunct1]
       r flaglessWorld_facts(2)
    by simp
  have b: "fst (dispatch (sampleWorld [] [] (\<lambda>f. None) (HttpResponse 503 ''busy'' (JsonThrows [])))
          ''u1'' ''pets'' sampleConfig 1700000000000 [''cat''] 1 1 ?z) =
      UploadDispatchError ''Worker upload failed: 503 - busy''"
    using dispatch_requires_success_flag
         [of "sampleWorld [] [] (\<lambda>f. None) (HttpResponse 503 ''busy'' (JsonThrows []))" _ _
             503 "''busy''" "JsonThrows []" "''u1''" "''pets''" sampleConfig 1700000000000
             "[''cat'']" 1 1 ?z,
          THEN conjunct2, THEN conjunct1]
       busy no
    by (simp add: decimal_eval)
  have c: "fst (dispatch (sampleWorld [] [] (\<lambda>f. None) (FetchRejects ''fetch failed''))
          ''u1'' ''pets'' sampleConfig 1700000000000 [''cat''] 1 1 ?z) =
      UploadDispatchError ''fetch failed''"
    using dispatch_requires_success_flag
         [of "sampleWorld [] [] (\<lambda>f. None) (FetchRejects ''fetch failed'')" _ _
             _ _ _ "''u1''" "''pets''" sampleConfig 1700000000000
             "[''cat'']" 1 1 ?z "''fetch failed''",
          THEN conjunct2, THEN conjunct2, THEN conjunct1]
       down
    by simp
  have f: "flaglessReply = HttpResponse 200 ''{}'' (JsonValue ?flagless)"
    by (simp add: flaglessReply_def)
  from a b c f no flaglessWorld_facts(1,2) show ?thesis
    by (intro conjI)
qed

text \<open>
  Status 200 and the body \<open>{}\<close>: the export fails, and the details of the failure contain
  neither \<open>200\<close> nor \<open>{}\<close>.
\<close>

theorem dispatch_requires_success_flag_counterexample:
  "startTraining flaglessWorld sampleRequest =
     (UploadDispatchError ''Worker upload failed: No success flag in response'',
      [DbProjectFindFirst, DbDatasetFindFirst, DbAnnotationFindMany, DbAnnotationClassFindMany,
       FsReaddir ''d1'', FsAccess ''d1'' ''a.jpg'', FsReadFile ''d1'' ''a.jpg'',
       WorkerUploadDataset ''u1/pets_1700000000000'']) \<and>
   flaglessReply =
     HttpResponse 200 ''{}''
       (JsonValue \<lparr>up_success = False, up_fileName = [], up_presignedUrl = [], up_bucket = [],
                   up_uploadPath = []\<rparr>) \<and>
   \<not> sublist (decimal 200) ''Worker upload failed: No success flag in response'' \<and>
   \<not> sublist ''{}'' ''Worker upload failed: No success flag in response''"
proof -
  have ne: "findAnnotations flaglessWorld ''d1'' \<noteq> []"
    by (simp add: flaglessWorld_facts)
  have g: "annotationsByImage (findAnnotations flaglessWorld ''d1'') =
      Some [(''a.jpg'', [mkAnnotation ''1'' ''a.jpg''])]"
    by (simp add: flaglessWorld_facts single_reconcile)
  have ne2: "annotatedImageFiles
      (reconcile (caseMapping flaglessWorld) [mkAnnotation ''1'' ''a.jpg''] [''a.jpg'']
         (filter (isImageFile (caseMapping flaglessWorld)) [''a.jpg''])) \<noteq> []"
    unfolding flaglessWorld_facts(10) single_reconcile(3) by simp
  have "startTraining flaglessWorld sampleRequest =
     (fst (exportDataset flaglessWorld ''u1'' ''d1'' ''pets'' sampleConfig 1700000000000
             [mkAnnotation ''1'' ''a.jpg''] [''cat''] [''a.jpg''] [''a.jpg'']),
      [DbProjectFindFirst, DbDatasetFindFirst, DbAnnotationFindMany, DbAnnotationClassFindMany,
       FsReaddir ''d1''] @
      snd (exportDataset flaglessWorld ''u1'' ''d1'' ''pets'' sampleConfig 1700000000000
             [mkAnnotation ''1'' ''a.jpg''] [''cat''] [''a.jpg''] [''a.jpg'']))"
    using startTraining_reaches_export
            [OF unreadableWorld_facts(1), of flaglessWorld, OF _ _ ne g flaglessWorld_facts(7)]
    by (simp add: flaglessWorld_facts unreadableWorld_facts(2) single_reconcile)
  also have "exportDataset flaglessWorld ''u1'' ''d1'' ''pets'' sampleConfig 1700000000000
             [mkAnnotation ''1'' ''a.jpg''] [''cat''] [''a.jpg''] [''a.jpg''] =
     (UploadDispatchError ''Worker upload failed: No success flag in response'',
      [FsAccess ''d1'' ''a.jpg'', FsReadFile ''d1'' ''a.jpg'',
       WorkerUploadDataset ''u1/pets_1700000000000''])"
    unfolding exportDataset_dispatches[OF ne2] flaglessWorld_facts(10) single_reconcile(3)
      dispatch_answer
    by (simp add: flaglessWorld_facts flaglessReply_def uploadThroughWorker_def decimal_eval)
  finally have answer: "startTraining flaglessWorld sampleRequest =
     (UploadDispatchError ''Worker upload failed: No success flag in response'',
      [DbProjectFindFirst, DbDatasetFindFirst, DbAnnotationFindMany, DbAnnotationClassFindMany,
       FsReaddir ''d1'', FsAccess ''d1'' ''a.jpg'', FsReadFile ''d1'' ''a.jpg'',
       WorkerUploadDataset ''u1/pets_1700000000000''])"
    by simp
  have absent: "\<not> sublist (decimal 200) ''Worker upload failed: No success flag in response''"
    "\<not> sublist ''{}'' ''Worker upload failed: No success flag in response''"
    by (simp_all add: decimal_eval sublist_code)
  from answer absent show ?thesis by (simp add: flaglessReply_def)
qed

section \<open>Keys of the map after reconciliation\<close>

lemma normalPath_dom:
  "dom (imageAnnotationMap (normalPath lc annotations files)) =
     set (annotatedImageFiles (normalPath lc annotations files))"
  using normalInv_normalPath[of lc files annotations]
  by (auto simp: normalInv_def set_firstOccurrences split: if_splits)

lemma normalPath_keys: "set (annotatedImageFiles (normalPath lc annotations files)) \<subseteq> set files"
proof
  fix f assume "f \<in> set (annotatedImageFiles (normalPath lc annotations files))"
  then have "f \<in> set (List.map_filter (assignedFile lc files) annotations)"
    using normalInv_normalPath[of lc files annotations]
    by (simp add: normalInv_def set_firstOccurrences)
  then obtain a where "assignedFile lc files a = Some f"
    by (auto simp: set_map_filter)
  then have "matchingImageFile lc files (imageId a) = Some f"
    by (auto simp: assignedFile_def split: option.splits if_splits)
  then show "f \<in> set files" by (rule matchingImageFile_Some)
qed

lemma normalPath_resolved:
  assumes "imageAnnotationMap (normalPath lc annotations files) file = Some anns" and "ann \<in> set anns"
  shows "ann \<in> set annotations \<and> file \<in> set files \<and> matchesImageFile lc (imageId ann) file"
proof -
  from assms normalInv_normalPath[of lc files annotations]
  have "ann \<in> set annotations" and "assignedFile lc files ann = Some file"
    by (auto simp: normalInv_def split: if_splits)
  then have "matchingImageFile lc files (imageId ann) = Some file"
    by (auto simp: assignedFile_def split: option.splits if_splits)
  from matchingImageFile_Some[OF this] \<open>ann \<in> set annotations\<close> show ?thesis
    by (simp add: matchesImageFile_def Let_def)
qed

lemma expandPath_dom:
  "dom (imageAnnotationMap (expandPath annotations files)) =
     set (annotatedImageFiles (expandPath annotations files))"
  by (simp add: expandPath_assignments dom_map_of_conv_image_fst)

lemma expandPath_keys: "set (annotatedImageFiles (expandPath annotations files)) \<subseteq> set files"
proof -
  have "sort files ! i \<in> set files" if "i < length files" for i
    using that by (metis length_sort nth_mem set_sort)
  then show ?thesis
    by (auto simp: expandPath_assignments expandAssignments_keys)
qed

lemma expandPath_all_participate:
  assumes "distinct files" and "files \<noteq> []" and "ann \<in> set annotations"
  shows "\<exists>file anns. file \<in> set files \<and>
           imageAnnotationMap (expandPath annotations files) file = Some anns \<and> ann \<in> set anns"
proof -
  let ?k = "min (length annotations) (length files)"
  from assms(3) chunks_partition[OF assms(2), of annotations]
  have "ann \<in> set (concat (map (specChunk annotations (length files)) [0 ..< ?k]))" by simp
  then obtain i where i: "i < ?k" "ann \<in> set (specChunk annotations (length files) i)"
    by auto
  then have ne: "specChunk annotations (length files) i \<noteq> []" by auto
  from expandAssignments_entry[OF assms(1) i(1)] ne
  have "imageAnnotationMap (expandPath annotations files) (sort files ! i) =
          Some (specChunk annotations (length files) i)"
    by (simp add: expandPath_assignments)
  moreover from i(1) have "sort files ! i \<in> set files"
    by (metis length_sort min_less_iff_conj nth_mem set_sort)
  ultimately show ?thesis using i(2) by blast
qed

text \<open>
  C9 (amended). After reconciliation by either path the keys of the map are the annotated
  files, and each of them is a file name of the directory listing. On the normal path an
  annotation is in an entry only if its imageId matches that file exactly or
  case-insensitively, that is after lower-casing both, whatever the case mapping; on the
  fallback path, with distinct file names, every annotation is in some entry whatever its
  imageId.
\<close>

theorem map_keys_are_stored_files:
  "dom (imageAnnotationMap (reconcile lc annotations ids (filter (isImageFile lc) datasetFiles))) =
     set (annotatedImageFiles (reconcile lc annotations ids (filter (isImageFile lc) datasetFiles))) \<and>
   dom (imageAnnotationMap (reconcile lc annotations ids (filter (isImageFile lc) datasetFiles))) \<subseteq>
     set datasetFiles \<and>
   (\<not> shouldExpandImageSelection ids (filter (isImageFile lc) datasetFiles) \<and>
    imageAnnotationMap (reconcile lc annotations ids (filter (isImageFile lc) datasetFiles)) file = Some anns \<and>
    ann \<in> set anns \<longrightarrow>
      file \<in> set datasetFiles \<and>
      (imageId ann = file \<or> toLowerCase lc (imageId ann) = toLowerCase lc file)) \<and>
   (shouldExpandImageSelection ids (filter (isImageFile lc) datasetFiles) \<and>
    distinct datasetFiles \<and> filter (isImageFile lc) datasetFiles \<noteq> [] \<and> a \<in> set annotations \<longrightarrow>
      (\<exists>f as. f \<in> set datasetFiles \<and>
         imageAnnotationMap (reconcile lc annotations ids (filter (isImageFile lc) datasetFiles)) f = Some as \<and>
         a \<in> set as))"
proof -
  let ?files = "filter (isImageFile lc) datasetFiles"
  let ?r = "reconcile lc annotations ids ?files"
  have c1: "dom (imageAnnotationMap ?r) = set (annotatedImageFiles ?r)"
    by (simp add: reconcile_def normalPath_dom expandPath_dom)
  have "set (annotatedImageFiles ?r) \<subseteq> set ?files"
    using normalPath_keys[of lc annotations ?files] expandPath_keys[of annotations ?files]
    by (simp add: reconcile_def)
  with c1 have c2: "dom (imageAnnotationMap ?r) \<subseteq> set datasetFiles" by auto
  have c3: "\<not> shouldExpandImageSelection ids ?files \<and>
      imageAnnotationMap ?r file = Some anns \<and> ann \<in> set anns \<longrightarrow>
      file \<in> set datasetFiles \<and>
      (imageId ann = file \<or> toLowerCase lc (imageId ann) = toLowerCase lc file)"
    using normalPath_resolved[of lc annotations ?files "file" anns ann]
    by (auto simp: reconcile_def matchesImageFile_def Let_def)
  have c4: "shouldExpandImageSelection ids ?files \<and>
      distinct datasetFiles \<and> ?files \<noteq> [] \<and> a \<in> set annotations \<longrightarrow>
      (\<exists>f as. f \<in> set datasetFiles \<and> imageAnnotationMap ?r f = Some as \<and> a \<in> set as)"
  proof (intro impI, elim conjE)
    assume e: "shouldExpandImageSelection ids ?files" and d: "distinct datasetFiles"
      and n: "?files \<noteq> []" and a: "a \<in> set annotations"
    from d have "distinct ?files" by simp
    from expandPath_all_participate[OF this n a] e
    show "\<exists>f as. f \<in> set datasetFiles \<and> imageAnnotationMap ?r f = Some as \<and> a \<in> set as"
      by (auto simp: reconcile_def)
  qed
  from c1 c2 c3 c4 show ?thesis by blast
qed

lemma sample_expand_decision:
  "shouldExpandImageSelection [''only.jpg''] (filter (isImageFile asciiLower) fourFiles)"
  "\<not> shouldExpandImageSelection [''B.JPG'', ''zzz.jpg'', ''a.jpg'', ''b.jpg'']
       (filter (isImageFile asciiLower) sampleFiles)"
  "filter (isImageFile asciiLower) fourFiles \<noteq> []"
  "mkAnnotation ''5'' ''only.jpg'' \<in> set fiveAnnotations"
  "mkAnnotation ''1'' ''B.JPG'' \<in> set [mkAnnotation ''1'' ''B.JPG'', mkAnnotation ''4'' ''b.jpg'']"
  "imageAnnotationMap
     (reconcile asciiLower sampleAnnotations [''B.JPG'', ''zzz.jpg'', ''a.jpg'', ''b.jpg'']
        (filter (isImageFile asciiLower) sampleFiles)) ''b.jpg'' =
     Some [mkAnnotation ''1'' ''B.JPG'', mkAnnotation ''4'' ''b.jpg'']"
  "imageAnnotationMap
     (reconcile asciiLower fiveAnnotations [''only.jpg''] (filter (isImageFile asciiLower) fourFiles)) ''c.jpg'' =
     Some [mkAnnotation ''5'' ''only.jpg'']"
  "toLowerCase asciiLower (imageId (mkAnnotation ''1'' ''B.JPG'')) = toLowerCase asciiLower ''b.jpg''"
  by code_simp+

theorem map_keys_are_stored_files_witness:
  "\<not> shouldExpandImageSelection [''B.JPG'', ''zzz.jpg'', ''a.jpg'', ''b.jpg'']
       (filter (isImageFile asciiLower) sampleFiles) \<and>
   imageAnnotationMap
     (reconcile asciiLower sampleAnnotations [''B.JPG'', ''zzz.jpg'', ''a.jpg'', ''b.jpg'']
        (filter (isImageFile asciiLower) sampleFiles)) ''b.jpg'' =
     Some [mkAnnotation ''1'' ''B.JPG'', mkAnnotation ''4'' ''b.jpg''] \<and>
   mkAnnotation ''1'' ''B.JPG'' \<in> set [mkAnnotation ''1'' ''B.JPG'', mkAnnotation ''4'' ''b.jpg''] \<and>
   ''b.jpg'' \<in> set sampleFiles \<and>
   toLowerCase asciiLower (imageId (mkAnnotation ''1'' ''B.JPG'')) = toLowerCase asciiLower ''b.jpg'' \<and>
   shouldExpandImageSelection [''only.jpg''] (filter (isImageFile asciiLower) fourFiles) \<and>
   distinct fourFiles \<and> filter (isImageFile asciiLower) fourFiles \<noteq> [] \<and>
   mkAnnotation ''5'' ''only.jpg'' \<in> set fiveAnnotations \<and>
   imageAnnotationMap
     (reconcile asciiLower fiveAnnotations [''only.jpg''] (filter (isImageFile asciiLower) fourFiles)) ''c.jpg'' =
     Some [mkAnnotation ''5'' ''only.jpg'']"
proof -
  note d = sample_expand_decision
  have "''b.jpg'' \<in> set sampleFiles \<and>
      (imageId (mkAnnotation ''1'' ''B.JPG'') = ''b.jpg'' \<or>
       toLowerCase asciiLower (imageId (mkAnnotation ''1'' ''B.JPG'')) = toLowerCase asciiLower ''b.jpg'')"
    by (rule map_keys_are_stored_files
          [of asciiLower sampleAnnotations "[''B.JPG'', ''zzz.jpg'', ''a.jpg'', ''b.jpg'']" sampleFiles
              "''b.jpg''" "[mkAnnotation ''1'' ''B.JPG'', mkAnnotation ''4'' ''b.jpg'']"
              "mkAnnotation ''1'' ''B.JPG''",
           THEN conjunct2, THEN conjunct2, THEN conjunct1, rule_format])
       (intro conjI d)
  then have m: "''b.jpg'' \<in> set sampleFiles" by (rule conjunct1)
  show ?thesis
    by (intro conjI d m sample_chunks)
qed

text \<open>
  One annotation whose imageId matches neither of two image files: the fallback path is
  taken and files the annotation under the first sorted file.
\<close>

theorem map_keys_are_stored_files_counterexample:
  "annotationsByImage [mkAnnotation ''1'' ''ghost.jpg''] =
     Some [(''ghost.jpg'', [mkAnnotation ''1'' ''ghost.jpg''])] \<and>
   objectKeys [(''ghost.jpg'', [mkAnnotation ''1'' ''ghost.jpg''])] = [''ghost.jpg''] \<and>
   matchingImageFile asciiLower (filter (isImageFile asciiLower) [''a.jpg'', ''b.jpg''])
     (imageId (mkAnnotation ''1'' ''ghost.jpg'')) = None \<and>
   imageAnnotationMap
     (reconcile asciiLower [mkAnnotation ''1'' ''ghost.jpg''] [''ghost.jpg'']
        (filter (isImageFile asciiLower) [''a.jpg'', ''b.jpg''])) ''a.jpg'' =
     Some [mkAnnotation ''1'' ''ghost.jpg'']"
  by code_simp

section \<open>Defaults of the manifest\<close>

lemma numberToString_examples:
  "numberToString (round64 100) = ''100''"
  "numberToString (round64 16) = ''16''"
  "numberToString (round64 640) = ''640''"
  "numberToString (round64 (1 / 1000)) = ''0.001''"
  "numberToString (round64 50) = ''50''"
  by (simp_all add: string_eval digits_eval)

text \<open>
  Numbers that are not printed digit by digit: small and large ones in exponent notation, and
  a sum of two decimals with the digits of its binary64 value.
\<close>

lemma numberToString_other_forms:
  "numberToString (round64 (1 / 10000000)) = ''1e-7''"
  "numberToString (round64 (10 ^ 21)) = ''1e+21''"
  "numberToString (round64 (10 ^ 23)) = ''1e+23''"
  "numberToString (round64 (- 12345 / 100)) = ''-123.45''"
  "numberToString (numAdd (round64 (1 / 10)) (round64 (2 / 10))) = ''0.30000000000000004''"
  by (simp_all add: string_eval digits_eval)

lemma createConfigYaml_falsy:
  assumes "\<not> truthy v"
  shows "createConfigYaml (cfg\<lparr>cfg_epochs := v\<rparr>) names datasetName timestamp =
           createConfigYaml (cfg\<lparr>cfg_epochs := JUndefined\<rparr>) names datasetName timestamp"
    and "createConfigYaml (cfg\<lparr>cfg_batchSize := v\<rparr>) names datasetName timestamp =
           createConfigYaml (cfg\<lparr>cfg_batchSize := JUndefined\<rparr>) names datasetName timestamp"
    and "createConfigYaml (cfg\<lparr>cfg_imgSize := v\<rparr>) names datasetName timestamp =
           createConfigYaml (cfg\<lparr>cfg_imgSize := JUndefined\<rparr>) names datasetName timestamp"
    and "createConfigYaml (cfg\<lparr>cfg_learningRate := v\<rparr>) names datasetName timestamp =
           createConfigYaml (cfg\<lparr>cfg_learningRate := JUndefined\<rparr>) names datasetName timestamp"
    and "createConfigYaml (cfg\<lparr>cfg_modelType := v\<rparr>) names datasetName timestamp =
           createConfigYaml (cfg\<lparr>cfg_modelType := JUndefined\<rparr>) names datasetName timestamp"
    and "createConfigYaml (cfg\<lparr>cfg_datasetSplitRatio := v\<rparr>) names datasetName timestamp =
           createConfigYaml (cfg\<lparr>cfg_datasetSplitRatio := JUndefined\<rparr>) names datasetName timestamp"
  using assms by (simp_all add: createConfigYaml_def orElse_def Let_def)

lemma createConfigYaml_epochs_default:
  assumes "\<not> truthy v"
  shows "prefix ''epochs: 100\<newline>''
           (createConfigYaml (cfg\<lparr>cfg_epochs := v\<rparr>) names datasetName timestamp)"
  using assms
  by (simp add: createConfigYaml_def orElse_def Let_def numberToString_examples)

lemma createConfigYaml_batch_default:
  assumes "\<not> truthy v"
  shows "sublist ''\<newline>batch_size: 16\<newline>''
           (createConfigYaml (cfg\<lparr>cfg_batchSize := v\<rparr>) names datasetName timestamp)"
proof -
  have "createConfigYaml (cfg\<lparr>cfg_batchSize := v\<rparr>) names datasetName timestamp =
      (''epochs: '' @ jsToString (orElse (cfg_epochs cfg) (JNum 100))) @
      ''\<newline>batch_size: 16\<newline>'' @
      (''img_size: '' @ jsToString (orElse (cfg_imgSize cfg) (JNum 640)) @ ''\<newline>'' @
       ''learning_rate: '' @ jsToString (orElse (cfg_learningRate cfg) (JNum (1 / 1000))) @ ''\<newline>'' @
       ''model: '' @ jsToString (orElse (cfg_modelType cfg) (JStr ''yolov8recommended'')) @ ''\<newline>'' @
       ''num_classes: '' @ decimal (length names) @ ''\<newline>'' @
       ''class_names:\<newline>'' @
       join ''\<newline>'' (map (\<lambda>name. ''  - '' @ name) names) @ ''\<newline>'' @
       ''project_name: '' @ (datasetName @ ''_Training_'' @ decimal timestamp) @ ''\<newline>'' @
       ''train_val_split: '' @ jsToString (orElse (cfg_datasetSplitRatio cfg) (JStr ''80/20'')) @
       ''\<newline>'')"
    using assms by (simp add: createConfigYaml_def orElse_def Let_def numberToString_examples)
  then show ?thesis
    unfolding sublist_def by blast
qed

text \<open>
  C10. In the manifest a field whose value is falsy (omitted, \<open>null\<close>, \<open>false\<close>, \<open>0\<close> or the
  empty string) is replaced by its default exactly as an omitted field is; with
  \<open>epochs = 0\<close> the manifest starts with the line \<open>epochs: 100\<close>, and with \<open>batchSize = 0\<close> it
  contains the line \<open>batch_size: 16\<close>.
\<close>

theorem falsy_config_defaults:
  "(\<not> truthy v \<longrightarrow>
      createConfigYaml (cfg\<lparr>cfg_epochs := v\<rparr>) names datasetName timestamp =
        createConfigYaml (cfg\<lparr>cfg_epochs := JUndefined\<rparr>) names datasetName timestamp \<and>
      createConfigYaml (cfg\<lparr>cfg_batchSize := v\<rparr>) names datasetName timestamp =
        createConfigYaml (cfg\<lparr>cfg_batchSize := JUndefined\<rparr>) names datasetName timestamp \<and>
      createConfigYaml (cfg\<lparr>cfg_imgSize := v\<rparr>) names datasetName timestamp =
        createConfigYaml (cfg\<lparr>cfg_imgSize := JUndefined\<rparr>) names datasetName timestamp \<and>
      createConfigYaml (cfg\<lparr>cfg_learningRate := v\<rparr>) names datasetName timestamp =
        createConfigYaml (cfg\<lparr>cfg_learningRate := JUndefined\<rparr>) names datasetName timestamp \<and>
      createConfigYaml (cfg\<lparr>cfg_modelType := v\<rparr>) names datasetName timestamp =
        createConfigYaml (cfg\<lparr>cfg_modelType := JUndefined\<rparr>) names datasetName timestamp \<and>
      createConfigYaml (cfg\<lparr>cfg_datasetSplitRatio := v\<rparr>) names datasetName timestamp =
        createConfigYaml (cfg\<lparr>cfg_datasetSplitRatio := JUndefined\<rparr>) names datasetName timestamp) \<and>
   \<not> truthy (JNum 0) \<and>
   prefix ''epochs: 100\<newline>''
     (createConfigYaml (cfg\<lparr>cfg_epochs := JNum 0\<rparr>) names datasetName timestamp) \<and>
   sublist ''\<newline>batch_size: 16\<newline>''
     (createConfigYaml (cfg\<lparr>cfg_batchSize := JNum 0\<rparr>) names datasetName timestamp)"
proof -
  have z: "\<not> truthy (JNum 0)" by (simp add: round64_0)
  from createConfigYaml_falsy[of v cfg names datasetName timestamp] z
    createConfigYaml_epochs_default[OF z, of cfg names datasetName timestamp]
    createConfigYaml_batch_default[OF z, of cfg names datasetName timestamp]
  show ?thesis by blast
qed

theorem falsy_config_defaults_witness:
  "\<not> truthy (JStr []) \<and>
   createConfigYaml (sampleConfig\<lparr>cfg_epochs := JStr []\<rparr>) [''cat''] ''pets'' 1700000000000 =
     createConfigYaml (sampleConfig\<lparr>cfg_epochs := JUndefined\<rparr>) [''cat''] ''pets'' 1700000000000 \<and>
   createConfigYaml (sampleConfig\<lparr>cfg_epochs := JNum 0\<rparr>) [''cat''] ''pets'' 1700000000000 =
     ''epochs: 100\<newline>batch_size: 16\<newline>img_size: 640\<newline>learning_rate: 0.001\<newline>model: yolov8recommended\<newline>num_classes: 1\<newline>class_names:\<newline>  - cat\<newline>project_name: pets_Training_1700000000000\<newline>train_val_split: 80/20\<newline>''"
proof -
  have f: "\<not> truthy (JStr [])" by simp
  have full: "createConfigYaml (sampleConfig\<lparr>cfg_epochs := JNum 0\<rparr>) [''cat''] ''pets'' 1700000000000 =
     ''epochs: 100\<newline>batch_size: 16\<newline>img_size: 640\<newline>learning_rate: 0.001\<newline>model: yolov8recommended\<newline>num_classes: 1\<newline>class_names:\<newline>  - cat\<newline>project_name: pets_Training_1700000000000\<newline>train_val_split: 80/20\<newline>''"
    by (simp add: createConfigYaml_def orElse_def Let_def sampleConfig_def
          numberToString_examples round64_0 decimal_eval)
  from falsy_config_defaults
         [of "JStr []" sampleConfig "[''cat'']" "''pets''" 1700000000000, THEN conjunct1,
          rule_format, OF f, THEN conjunct1]
       f full
  show ?thesis by (intro conjI)
qed

end
